theory Spec2Isabelle
  imports Main
begin

section \<open>The application pipeline of \<open>cron_job.ts\<close>\<close>

text \<open>
  The theory embeds the quota policy (\<open>getApplicationsPerPosition\<close>), the relevance
  classifier (\<open>isSuitableVacancy\<close>), the document generator (\<open>generateCoverLetter\<close>), the
  submission adapter (\<open>HHService.sendNegotiation\<close>) and the criterion pipeline
  (\<open>processVacancies\<close>) of \<open>src/cron_job.ts\<close>.

  Every external call (chat completion, HTTP request, store query) is a field of the
  record \<open>env\<close>: the answer the collaborator gives to a call with these arguments during
  the page iteration that makes the call. An awaited promise either rejects or fulfils.
\<close>

subsection \<open>Data\<close>

datatype 'a outcome = Throws | Returns 'a

text \<open>\<open>IPosition\<close>, lines 16-20 (the date plays no role in the pipeline).\<close>

record IPosition =
  position :: string
  status :: string

text \<open>
  \<open>IUser\<close>, lines 23-47, with the fields the pipeline reads. \<open>positions\<close> is optional
  in the interface, and \<open>processVacancies\<close> tests it. The pipeline reads two identifiers
  of the user object: \<open>user.id\<close> (line 489), which an object may lack, and
  \<open>user._id\<close> (line 520).
\<close>

record IUser =
  id_u :: "string option"
  object_id_u :: string
  firstName :: string
  lastName :: string
  positions :: "IPosition list option"
  hasHHAccount :: bool
  hhAccessToken :: string
  hhRefreshToken :: string
  only_with_salary :: bool

text \<open>
  One item of a search page, as \<open>processVacancies\<close> reads it: \<open>vacancy.id\<close>,
  \<open>vacancy.name\<close>, \<open>vacancy.employer.name\<close>, \<open>vacancy.employer.logo_urls['90']\<close>
  (absent when \<open>logo_urls\<close> is), \<open>vacancy.salary\<close> (absent, or present with a
  \<open>from\<close> that may be null), \<open>vacancy.snippet.responsibility\<close>,
  \<open>vacancy.snippet.requirement\<close> and \<open>vacancy.address.raw\<close> (absent when \<open>address\<close> is).
\<close>

record posting =
  id_v :: string
  name_v :: string
  employer_name_v :: string
  employer_logo_v :: "string option"
  salary_v :: "int option option"
  responsibility_v :: "string option"
  requirement_v :: "string option"
  address_v :: "string option"

text \<open>
  The object built at lines 510-524. \<open>cover_letter\<close> holds what
  \<open>generateCoverLetter\<close> returned, which is null (\<open>None\<close>) on failure.
\<close>

record IVacancy =
  vacancy_id :: string
  job_name :: string
  employer_name :: string
  salary :: "int option"
  employer_logo :: string
  responsibility :: string
  requirement :: string
  address :: string
  url :: string
  user :: string
  cover_letter :: "string option"
  isHeadHunterVacancy :: bool
  isOtherSiteVacancy :: bool

text \<open>What \<open>sendNegotiation\<close> returns: the response data, or the object of line 198.\<close>

datatype negotiation_result = ResponseData string | SoftFailure

text \<open>
  The external calls a run makes, in the order it makes them on one page: the
  extraction completion (lines 464-468), the search request (line 473), and the
  submission request of \<open>sendNegotiation\<close> (line 174) with the resume identifier and
  the message it was called with.
\<close>

datatype event =
  ExtractCall nat
  | FetchCall nat string
  | NegotiationCall string "string option" "string option"

text \<open>
  The collaborators. The first argument of each call is the page iteration that makes
  it.
  \<^item> \<open>extractCompletion\<close> and \<open>suitableCompletion\<close> are the completion calls of lines
    464-469 and 430-436, with the position text (and the posting) their prompts are built
    from; \<open>jsonPosition\<close> and \<open>jsonIsSuitable\<close> stand for
    \<open>JSON.parse(text).position\<close> and for the truth value of
    \<open>JSON.parse(text).isSuitable\<close>, and throw where these expressions do (on text that
    is not JSON, and on a completion without content, whose parse is null).
  \<^item> \<open>getVacancy\<close> is \<open>HHService.getVacancy\<close> (lines 202-229, which rethrow a failed
    request) followed by the read of \<open>items\<close> at line 478.
  \<^item> \<open>findOne\<close> is the store query of line 489, by \<open>user.id\<close> and title: whether a
    document is found.
  \<^item> \<open>suitableResumeTry\<close> is the body of the \<open>try\<close> of \<open>getSuitableResumeId\<close>;
    \<open>getOneResume\<close> is lines 311-318 followed by the read of \<open>download.pdf.url\<close> at
    line 500; \<open>loadPDF\<close> is lines 121-135.
  \<^item> \<open>coverLetterCompletion\<close> is the completion call of lines 401-407, whose content may
    be null; \<open>negotiationsPost\<close> is the request of line 174 with the form fields
    \<open>vacancy_id\<close>, \<open>resume_id\<close>, \<open>message\<close> (when appended) and the token.
\<close>

record env =
  extractCompletion :: "nat \<Rightarrow> string \<Rightarrow> string outcome"
  jsonPosition :: "string \<Rightarrow> string outcome"
  getVacancy :: "nat \<Rightarrow> string \<Rightarrow> bool \<Rightarrow> posting list outcome"
  findOne :: "nat \<Rightarrow> string option \<Rightarrow> string \<Rightarrow> bool outcome"
  suitableCompletion :: "nat \<Rightarrow> string \<Rightarrow> posting \<Rightarrow> string outcome"
  jsonIsSuitable :: "string \<Rightarrow> bool outcome"
  suitableResumeTry :: "nat \<Rightarrow> string \<Rightarrow> string \<Rightarrow> string outcome"
  getOneResume :: "nat \<Rightarrow> string option \<Rightarrow> string \<Rightarrow> string outcome"
  loadPDF :: "nat \<Rightarrow> string \<Rightarrow> string \<Rightarrow> string outcome"
  coverLetterCompletion :: "nat \<Rightarrow> posting \<Rightarrow> string \<Rightarrow> string option outcome"
  negotiationsPost :: "nat \<Rightarrow> string \<Rightarrow> string option \<Rightarrow> string option \<Rightarrow> string \<Rightarrow> string outcome"

subsection \<open>Quota policy\<close>

text \<open>Lines 362-366. The argument is an array length.\<close>

definition getApplicationsPerPosition :: "nat \<Rightarrow> nat" where
  "getApplicationsPerPosition numPositions =
     (if numPositions \<le> 4 then 7
      else if numPositions \<ge> 8 then 2
      else 6)"

subsection \<open>Document generator, relevance classifier, submission adapter\<close>

text \<open>
  Lines 368-412: the completion's content (which may be null), or null when the
  completion call rejects.
\<close>

definition generateCoverLetter :: "env \<Rightarrow> nat \<Rightarrow> posting \<Rightarrow> string \<Rightarrow> string option" where
  "generateCoverLetter e page vacancy resume =
     (case coverLetterCompletion e page vacancy resume of
        Throws \<Rightarrow> None
      | Returns content \<Rightarrow> content)"

text \<open>Lines 414-443: both the completion call and the parse are inside the \<open>try\<close>.\<close>

definition isSuitableVacancy :: "env \<Rightarrow> nat \<Rightarrow> string \<Rightarrow> posting \<Rightarrow> bool" where
  "isSuitableVacancy e page pos vacancy =
     (case suitableCompletion e page pos vacancy of
        Throws \<Rightarrow> False
      | Returns responseText \<Rightarrow>
          (case jsonIsSuitable e responseText of
             Throws \<Rightarrow> False
           | Returns b \<Rightarrow> b))"

text \<open>
  Lines 164-200: the message is appended to the form only when it is truthy (neither
  null nor empty); a rejected request is caught and answered by the object of line 198.
\<close>

definition truthy :: "string option \<Rightarrow> bool" where
  "truthy s = (case s of None \<Rightarrow> False | Some t \<Rightarrow> t \<noteq> [])"

definition sendNegotiation ::
  "env \<Rightarrow> nat \<Rightarrow> string \<Rightarrow> string option \<Rightarrow> string option \<Rightarrow> string \<Rightarrow> negotiation_result outcome" where
  "sendNegotiation e page vacancyId resumeId message token =
     (case negotiationsPost e page vacancyId resumeId (if truthy message then message else None) token of
        Throws \<Rightarrow> Returns SoftFailure
      | Returns d \<Rightarrow> Returns (ResponseData d))"

text \<open>Lines 230-310: every failure inside is caught, and the function then returns undefined.\<close>

definition getSuitableResumeId :: "env \<Rightarrow> nat \<Rightarrow> string \<Rightarrow> string \<Rightarrow> string option" where
  "getSuitableResumeId e page vacancyId token =
     (case suitableResumeTry e page vacancyId token of
        Throws \<Rightarrow> None
      | Returns r \<Rightarrow> Some r)"

subsection \<open>Criterion pipeline\<close>

text \<open>
  The mutable locals of \<open>processVacancies\<close> (lines 449-450), and the external calls made
  so far.
\<close>

record run_state =
  vacancyDocs :: "IVacancy list"
  processedVacancies :: nat
  calls :: "event list"

definition initial_state :: run_state where
  "initial_state = \<lparr>vacancyDocs = [], processedVacancies = 0, calls = []\<rparr>"

text \<open>Line 485.\<close>

definition alreadyInVacancyDocs :: "IVacancy list \<Rightarrow> posting \<Rightarrow> bool" where
  "alreadyInVacancyDocs docs vacancy =
     list_ex (\<lambda>doc. vacancy_id doc = id_v vacancy
                \<or> (job_name doc = name_v vacancy \<and> employer_name doc = employer_name_v vacancy)
                \<or> job_name doc = name_v vacancy) docs"

definition default_logo :: string where
  "default_logo = ''https://media.licdn.com/dms/image/C4D0BAQGYJfURzon1xg/company-logo_200_200/0/1631327285447?e=2147483647&v=beta&t=mTBfWh3AsArQHLJLo8fp6OLk5LLlzqQrsL6ob3uUFsA''"

text \<open>Lines 510-524. \<open>x || ''\<close> is the empty string for a null or empty \<open>x\<close>.\<close>

definition vacancyDoc :: "IUser \<Rightarrow> posting \<Rightarrow> string option \<Rightarrow> IVacancy" where
  "vacancyDoc u vacancy coverLetter =
     \<lparr>vacancy_id = id_v vacancy,
      job_name = name_v vacancy,
      employer_name = employer_name_v vacancy,
      salary = (case salary_v vacancy of None \<Rightarrow> Some 0 | Some from \<Rightarrow> from),
      employer_logo = (case employer_logo_v vacancy of None \<Rightarrow> default_logo | Some l \<Rightarrow> l),
      responsibility = (case responsibility_v vacancy of None \<Rightarrow> [] | Some r \<Rightarrow> r),
      requirement = (case requirement_v vacancy of None \<Rightarrow> [] | Some r \<Rightarrow> r),
      address = (case address_v vacancy of None \<Rightarrow> [] | Some a \<Rightarrow> a),
      url = ''https://hh.kz/vacancy/'' @ id_v vacancy @ ''/'',
      user = object_id_u u,
      cover_letter = coverLetter,
      isHeadHunterVacancy = True,
      isOtherSiteVacancy = False\<rparr>"

text \<open>
  How the promise of one posting's callback (lines 481-527) settles: it rejects, it
  returns without a record, or it pushes a record and counts it.
\<close>

datatype settled = Rejected | Skipped | Accumulated IVacancy

text \<open>
  The callback of lines 481-527 for one posting. \<open>st\<close> is the state its two
  synchronous tests (lines 482 and 485) read. \<open>map\<close> calls the callbacks of a page one
  after the other, and an async function runs up to its first \<open>await\<close> (line 489)
  when it is called; it pushes (line 525) only after that \<open>await\<close>. So every callback of a
  page makes both tests on the state the page started with.
\<close>

definition vacancyCallback ::
  "env \<Rightarrow> IUser \<Rightarrow> IPosition \<Rightarrow> nat \<Rightarrow> nat \<Rightarrow> run_state \<Rightarrow> posting \<Rightarrow> settled \<times> event list" where
  "vacancyCallback e u pos applicationsPerPosition page st vacancy =
     (if processedVacancies st \<ge> applicationsPerPosition then (Skipped, [])
      else if alreadyInVacancyDocs (vacancyDocs st) vacancy then (Skipped, [])
      else
        (case findOne e page (id_u u) (name_v vacancy) of
           Throws \<Rightarrow> (Rejected, [])
         | Returns alreadyExistingVacancy \<Rightarrow>
             if alreadyExistingVacancy then (Skipped, [])
             else if \<not> isSuitableVacancy e page (position pos) vacancy then (Skipped, [])
             else if hasHHAccount u then
               (let resumeId = getSuitableResumeId e page (id_v vacancy) (hhAccessToken u) in
                case getOneResume e page resumeId (hhAccessToken u) of
                  Throws \<Rightarrow> (Rejected, [])
                | Returns pdfUrl \<Rightarrow>
                    (case loadPDF e page pdfUrl (hhAccessToken u) of
                       Throws \<Rightarrow> (Rejected, [])
                     | Returns pdfContent \<Rightarrow>
                         (let coverLetter = generateCoverLetter e page vacancy pdfContent in
                          case sendNegotiation e page (id_v vacancy) resumeId coverLetter (hhAccessToken u) of
                            Throws \<Rightarrow> (Rejected, [NegotiationCall (id_v vacancy) resumeId coverLetter])
                          | Returns r \<Rightarrow>
                              (Accumulated (vacancyDoc u vacancy coverLetter),
                               [NegotiationCall (id_v vacancy) resumeId coverLetter]))))
             else
               (let coverLetter = generateCoverLetter e page vacancy [] in
                if \<not> truthy coverLetter then (Skipped, [])
                else (Accumulated (vacancyDoc u vacancy coverLetter), []))))"

fun pushed :: "settled \<Rightarrow> IVacancy list" where
  "pushed (Accumulated doc) = [doc]"
| "pushed Rejected = []"
| "pushed Skipped = []"

text \<open>
  Lines 481-529 for the postings of one page: all callbacks are launched on the state
  the page starts with, and \<open>Promise.allSettled\<close> waits for all of them. Records and
  calls are listed in the order of the page; the order in which the callbacks really
  finish depends on the collaborators, and nothing below depends on it.
\<close>

definition processPage ::
  "env \<Rightarrow> IUser \<Rightarrow> IPosition \<Rightarrow> nat \<Rightarrow> nat \<Rightarrow> run_state \<Rightarrow> posting list \<Rightarrow> run_state" where
  "processPage e u pos applicationsPerPosition page st items =
     (let promises = map (vacancyCallback e u pos applicationsPerPosition page st) items;
          docs = concat (map (pushed \<circ> fst) promises)
      in \<lparr>vacancyDocs = vacancyDocs st @ docs,
          processedVacancies = processedVacancies st + length docs,
          calls = calls st @ concat (map snd promises)\<rparr>)"

text \<open>Lines 464-471: the completion call, then the parse of its content.\<close>

definition extractPosition :: "env \<Rightarrow> nat \<Rightarrow> string \<Rightarrow> string outcome" where
  "extractPosition e page text =
     (case extractCompletion e page text of
        Throws \<Rightarrow> Throws
      | Returns responseText \<Rightarrow> jsonPosition e responseText)"

definition logged :: "run_state \<Rightarrow> event list \<Rightarrow> run_state" where
  "logged st evs = st\<lparr>calls := calls st @ evs\<rparr>"

text \<open>
  The loop of lines 451-535, from iteration \<open>page\<close> on. The \<open>try\<close> is inside the loop
  body: a failure of the extraction or of the search is caught at line 532, and the loop
  goes on with the next page.
\<close>

function pageLoop ::
  "env \<Rightarrow> IUser \<Rightarrow> IPosition \<Rightarrow> nat \<Rightarrow> nat \<Rightarrow> run_state \<Rightarrow> run_state" where
  "pageLoop e u pos applicationsPerPosition page st =
     (if \<not> page \<le> 6 then st
      else
        (case extractPosition e page (position pos) of
           Throws \<Rightarrow>
             pageLoop e u pos applicationsPerPosition (page + 1) (logged st [ExtractCall page])
         | Returns extracted \<Rightarrow>
             (case getVacancy e page extracted (only_with_salary u) of
                Throws \<Rightarrow>
                  pageLoop e u pos applicationsPerPosition (page + 1)
                    (logged st [ExtractCall page, FetchCall page extracted])
              | Returns items \<Rightarrow>
                  if length items = 0 then
                    pageLoop e u pos applicationsPerPosition (page + 1)
                      (logged st [ExtractCall page, FetchCall page extracted])
                  else
                    (let st' = processPage e u pos applicationsPerPosition page
                                 (logged st [ExtractCall page, FetchCall page extracted]) items
                     in if processedVacancies st' \<ge> applicationsPerPosition then st'
                        else pageLoop e u pos applicationsPerPosition (page + 1) st'))))"
  by pat_completeness auto
termination
  by (relation "measure (\<lambda>(e, u, pos, q, page, st). 7 - page)") auto

text \<open>Lines 446-448: the quota of a run, when the user has a list of positions.\<close>

definition applicationsPerPosition :: "IUser \<Rightarrow> nat option" where
  "applicationsPerPosition u =
     (case positions u of
        None \<Rightarrow> None
      | Some ps \<Rightarrow> Some (getApplicationsPerPosition (length ps)))"

text \<open>
  Lines 445-547: the list handed to \<open>insertMany\<close> (\<open>None\<close> when it is not called), and
  the external calls of the run.
\<close>

definition processVacancies :: "env \<Rightarrow> IUser \<Rightarrow> IPosition \<Rightarrow> IVacancy list option \<times> event list" where
  "processVacancies e u pos =
     (case applicationsPerPosition u of
        None \<Rightarrow> (None, [])
      | Some quota \<Rightarrow>
          (let st = pageLoop e u pos quota 1 initial_state
           in (if length (vacancyDocs st) > 0 then Some (vacancyDocs st) else None, calls st)))"

text \<open>
  Lines 552-556: the positions of a user for which \<open>processUsers\<close> starts a run.
\<close>

definition activePositions :: "IUser \<Rightarrow> IPosition list" where
  "activePositions u =
     (case positions u of
        None \<Rightarrow> []
      | Some ps \<Rightarrow> filter (\<lambda>p. position p \<noteq> [] \<and> status p = ''Active'') ps)"

text \<open>Lines 537-546: what a run that ends in state \<open>st\<close> hands to \<open>insertMany\<close>, and its calls.\<close>

definition runResult :: "run_state \<Rightarrow> IVacancy list option \<times> event list" where
  "runResult st = (if length (vacancyDocs st) > 0 then Some (vacancyDocs st) else None, calls st)"

text \<open>
  The state in which iteration \<open>page\<close> of the loop of a run starts, when the run gets
  there: iteration 1 starts in the initial state, and iteration \<open>page + 1\<close> starts in
  the state iteration \<open>page\<close> leaves, unless that iteration is beyond page 6 or ends at
  the \<open>break\<close> of line 531.
\<close>

fun stateAt :: "env \<Rightarrow> IUser \<Rightarrow> IPosition \<Rightarrow> nat \<Rightarrow> nat \<Rightarrow> run_state option" where
  "stateAt e u pos quota page =
     (if page = 0 then None
      else if page = 1 then Some initial_state
      else
        (case stateAt e u pos quota (page - 1) of
           None \<Rightarrow> None
         | Some st \<Rightarrow>
             if \<not> page - 1 \<le> 6 then None
             else
               (case extractPosition e (page - 1) (position pos) of
                  Throws \<Rightarrow> Some (logged st [ExtractCall (page - 1)])
                | Returns extracted \<Rightarrow>
                    (case getVacancy e (page - 1) extracted (only_with_salary u) of
                       Throws \<Rightarrow> Some (logged st [ExtractCall (page - 1), FetchCall (page - 1) extracted])
                     | Returns items \<Rightarrow>
                         if length items = 0
                         then Some (logged st [ExtractCall (page - 1), FetchCall (page - 1) extracted])
                         else
                           (let st' = processPage e u pos quota (page - 1)
                                        (logged st [ExtractCall (page - 1), FetchCall (page - 1) extracted])
                                        items
                            in if processedVacancies st' \<ge> quota then None
                               else Some st')))))"

text \<open>
  Lines 320-341: the answer to the token request is the new pair of tokens, which is
  written into the user object (lines 335-336); a failed request is caught and leaves the
  user as it is.
\<close>

definition refreshAccessToken :: "(string \<times> string) outcome \<Rightarrow> IUser \<Rightarrow> IUser" where
  "refreshAccessToken tokenResponse u =
     (case tokenResponse of
        Throws \<Rightarrow> u
      | Returns (access_token, refresh_token) \<Rightarrow>
          u\<lparr>hhAccessToken := access_token, hhRefreshToken := refresh_token\<rparr>)"

text \<open>
  Lines 551-556, the worker of \<open>processUsers\<close> for one user: after the token refresh, one
  promise per position of the user, which runs \<open>processVacancies\<close> when the position has
  a text and the status \<open>'Active'\<close>, and does nothing otherwise. \<open>es i\<close> are the
  collaborators as they answer the run of the position at index \<open>i\<close>. The \<open>map\<close> of line
  552 throws when the user has no list of positions.
\<close>

definition positionPromises ::
  "(string \<times> string) outcome \<Rightarrow> (nat \<Rightarrow> env) \<Rightarrow> IUser \<Rightarrow>
     (IVacancy list option \<times> event list) option list outcome" where
  "positionPromises tokenResponse es u =
     (let u' = refreshAccessToken tokenResponse u
      in case positions u' of
           None \<Rightarrow> Throws
         | Some ps \<Rightarrow>
             Returns (map (\<lambda>(i, p). if position p \<noteq> [] \<and> status p = ''Active''
                                       then Some (processVacancies (es i) u' p)
                                       else None)
                          (enumerate 0 ps)))"

subsection \<open>Reading the calls of a run\<close>

fun fetchedPages :: "event list \<Rightarrow> nat list" where
  "fetchedPages [] = []"
| "fetchedPages (FetchCall page term # evs) = page # fetchedPages evs"
| "fetchedPages (ExtractCall page # evs) = fetchedPages evs"
| "fetchedPages (NegotiationCall vacancyId resumeId message # evs) = fetchedPages evs"

fun extractedPages :: "event list \<Rightarrow> nat list" where
  "extractedPages [] = []"
| "extractedPages (ExtractCall page # evs) = page # extractedPages evs"
| "extractedPages (FetchCall page term # evs) = extractedPages evs"
| "extractedPages (NegotiationCall vacancyId resumeId message # evs) = extractedPages evs"

text \<open>The calls a posting's callback makes are submission requests.\<close>

fun isNegotiation :: "event \<Rightarrow> bool" where
  "isNegotiation (NegotiationCall vacancyId resumeId message) = True"
| "isNegotiation (ExtractCall page) = False"
| "isNegotiation (FetchCall page term) = False"

subsection \<open>Concrete users, postings and collaborators\<close>

definition sample_posting :: "string \<Rightarrow> string \<Rightarrow> string \<Rightarrow> posting" where
  "sample_posting i n emp =
     \<lparr>id_v = i, name_v = n, employer_name_v = emp, employer_logo_v = None, salary_v = None,
      responsibility_v = None, requirement_v = Some ''TS'', address_v = None\<rparr>"

definition sample_position :: IPosition where
  "sample_position = \<lparr>position = ''dev'', status = ''Active''\<rparr>"

text \<open>A user with \<open>n\<close> active criteria, with or without a linked account.\<close>

definition sample_user :: "nat \<Rightarrow> bool \<Rightarrow> IUser" where
  "sample_user n hh =
     \<lparr>id_u = None, object_id_u = ''u1'', firstName = ''A'', lastName = ''B'',
      positions = Some (replicate n sample_position),
      hasHHAccount = hh, hhAccessToken = ''tok'', hhRefreshToken = ''ref'',
      only_with_salary = False\<rparr>"

text \<open>One active criterion and four that are not.\<close>

definition mixed_positions :: "IPosition list" where
  "mixed_positions = sample_position # replicate 4 \<lparr>position = ''qa'', status = ''Paused''\<rparr>"

definition mixed_user :: IUser where
  "mixed_user = (sample_user 0 False)\<lparr>positions := Some mixed_positions\<rparr>"

text \<open>
  Collaborators that all succeed: the search returns \<open>pages page\<close>, nothing is in the
  store, every posting is judged suitable, and every letter is \<open>''letter''\<close>.
\<close>

definition sample_env :: "(nat \<Rightarrow> posting list) \<Rightarrow> env" where
  "sample_env pages =
     \<lparr>extractCompletion = \<lambda>page text. Returns ''json'',
      jsonPosition = \<lambda>t. Returns ''dev'',
      getVacancy = \<lambda>page term sal. Returns (pages page),
      findOne = \<lambda>page uid title. Returns False,
      suitableCompletion = \<lambda>page pos v. Returns ''json'',
      jsonIsSuitable = \<lambda>t. Returns True,
      suitableResumeTry = \<lambda>page vid tok. Returns ''r1'',
      getOneResume = \<lambda>page rid tok. Returns ''pdf'',
      loadPDF = \<lambda>page link tok. Returns ''resume'',
      coverLetterCompletion = \<lambda>page v resume. Returns (Some ''letter''),
      negotiationsPost = \<lambda>page vid rid msg tok. Returns ''ok''\<rparr>"

definition no_pages :: "nat \<Rightarrow> posting list" where
  "no_pages page = []"

definition one_on_page :: "nat \<Rightarrow> nat \<Rightarrow> posting list" where
  "one_on_page p page = (if page = p then [sample_posting ''1'' ''a'' ''x''] else [])"

text \<open>Two postings of one employer under one title, on the same page.\<close>

definition twins_on_page_one :: "nat \<Rightarrow> posting list" where
  "twins_on_page_one page =
     (if page = 1 then [sample_posting ''1'' ''a'' ''x'', sample_posting ''2'' ''a'' ''x''] else [])"

definition three_on_page_one :: "nat \<Rightarrow> posting list" where
  "three_on_page_one page =
     (if page = 1
      then [sample_posting ''1'' ''a'' ''x'', sample_posting ''2'' ''b'' ''x'',
            sample_posting ''3'' ''c'' ''y'']
      else [])"

definition six_on_page_one :: "nat \<Rightarrow> posting list" where
  "six_on_page_one page =
     (if page = 1
      then [sample_posting ''1'' ''a'' ''x'', sample_posting ''2'' ''b'' ''x'',
            sample_posting ''3'' ''c'' ''x'', sample_posting ''4'' ''d'' ''x'',
            sample_posting ''5'' ''e'' ''x'', sample_posting ''6'' ''f'' ''x'']
      else [])"

text \<open>The extraction completion rejects on page 1 and succeeds afterwards.\<close>

definition extraction_fails_once :: "(nat \<Rightarrow> posting list) \<Rightarrow> env" where
  "extraction_fails_once pages =
     (sample_env pages)\<lparr>extractCompletion := \<lambda>page text. if page = 1 then Throws else Returns ''json''\<rparr>"

text \<open>Every submission request is rejected.\<close>

definition submission_fails :: "(nat \<Rightarrow> posting list) \<Rightarrow> env" where
  "submission_fails pages = (sample_env pages)\<lparr>negotiationsPost := \<lambda>page vid rid msg tok. Throws\<rparr>"

text \<open>The relevance completion rejects.\<close>

definition classifier_fails :: "(nat \<Rightarrow> posting list) \<Rightarrow> env" where
  "classifier_fails pages = (sample_env pages)\<lparr>suitableCompletion := \<lambda>page pos v. Throws\<rparr>"

text \<open>The relevance completion answers with text that is not JSON.\<close>

definition classifier_unparsable :: "(nat \<Rightarrow> posting list) \<Rightarrow> env" where
  "classifier_unparsable pages = (sample_env pages)\<lparr>jsonIsSuitable := \<lambda>t. Throws\<rparr>"

text \<open>The letter completion rejects.\<close>

definition generator_fails :: "(nat \<Rightarrow> posting list) \<Rightarrow> env" where
  "generator_fails pages = (sample_env pages)\<lparr>coverLetterCompletion := \<lambda>page v resume. Throws\<rparr>"

lemmas sample_defs =
  sample_posting_def sample_position_def sample_user_def mixed_positions_def mixed_user_def
  sample_env_def no_pages_def one_on_page_def twins_on_page_one_def three_on_page_one_def
  six_on_page_one_def extraction_fails_once_def submission_fails_def classifier_fails_def
  classifier_unparsable_def generator_fails_def

lemmas pipeline_defs =
  processVacancies_def applicationsPerPosition_def getApplicationsPerPosition_def
  initial_state_def extractPosition_def logged_def processPage_def vacancyCallback_def
  runResult_def refreshAccessToken_def positionPromises_def
  alreadyInVacancyDocs_def isSuitableVacancy_def generateCoverLetter_def truthy_def
  sendNegotiation_def getSuitableResumeId_def vacancyDoc_def Let_def

section \<open>Lemmas about the page loop\<close>

declare pageLoop.simps [simp del]

declare stateAt.simps [simp del]

lemma fetchedPages_append: "fetchedPages (xs @ ys) = fetchedPages xs @ fetchedPages ys"
  by (induction xs rule: fetchedPages.induct) simp_all

lemma extractedPages_append: "extractedPages (xs @ ys) = extractedPages xs @ extractedPages ys"
  by (induction xs rule: extractedPages.induct) simp_all

lemma negotiations_only:
  "list_all isNegotiation evs \<Longrightarrow>
     fetchedPages evs = [] \<and> extractedPages evs = [] \<and> FetchCall p t \<notin> set evs"
  by (induction evs rule: fetchedPages.induct) auto

lemma vacancyCallback_calls: "list_all isNegotiation (snd (vacancyCallback e u pos q page st v))"
  by (simp add: vacancyCallback_def Let_def sendNegotiation_def split: outcome.splits)

lemma page_calls:
  "list_all isNegotiation (concat (map (snd \<circ> vacancyCallback e u pos q page st) items))"
  by (induction items) (simp_all add: vacancyCallback_calls)

lemma processPage_calls:
  "\<exists>evs. calls (processPage e u pos q page st items) = calls st @ evs \<and> list_all isNegotiation evs"
  by (simp add: processPage_def Let_def page_calls)

lemma processPage_fetched:
  "fetchedPages (calls (processPage e u pos q page st items)) = fetchedPages (calls st)"
  using processPage_calls [of e u pos q page st items]
  by (auto simp: fetchedPages_append negotiations_only)

lemma processPage_extracted:
  "extractedPages (calls (processPage e u pos q page st items)) = extractedPages (calls st)"
  using processPage_calls [of e u pos q page st items]
  by (auto simp: extractedPages_append negotiations_only)


lemma pageLoop_stop: "\<not> page \<le> 6 \<Longrightarrow> pageLoop e u pos q page st = st"
  by (subst pageLoop.simps) simp

lemma pageLoop_extract_throws:
  "page \<le> 6 \<Longrightarrow> extractPosition e page (position pos) = Throws \<Longrightarrow>
   pageLoop e u pos q page st = pageLoop e u pos q (Suc page) (logged st [ExtractCall page])"
  by (subst pageLoop.simps) simp

lemma pageLoop_fetch_throws:
  "page \<le> 6 \<Longrightarrow> extractPosition e page (position pos) = Returns t \<Longrightarrow>
   getVacancy e page t (only_with_salary u) = Throws \<Longrightarrow>
   pageLoop e u pos q page st =
     pageLoop e u pos q (Suc page) (logged st [ExtractCall page, FetchCall page t])"
  by (subst pageLoop.simps) simp

lemma pageLoop_empty_page:
  "page \<le> 6 \<Longrightarrow> extractPosition e page (position pos) = Returns t \<Longrightarrow>
   getVacancy e page t (only_with_salary u) = Returns [] \<Longrightarrow>
   pageLoop e u pos q page st =
     pageLoop e u pos q (Suc page) (logged st [ExtractCall page, FetchCall page t])"
  by (subst pageLoop.simps) simp

lemma pageLoop_break:
  "page \<le> 6 \<Longrightarrow> extractPosition e page (position pos) = Returns t \<Longrightarrow>
   getVacancy e page t (only_with_salary u) = Returns items \<Longrightarrow> items \<noteq> [] \<Longrightarrow>
   q \<le> processedVacancies (processPage e u pos q page (logged st [ExtractCall page, FetchCall page t]) items) \<Longrightarrow>
   pageLoop e u pos q page st =
     processPage e u pos q page (logged st [ExtractCall page, FetchCall page t]) items"
  by (subst pageLoop.simps) (simp add: Let_def)

lemma pageLoop_next:
  "page \<le> 6 \<Longrightarrow> extractPosition e page (position pos) = Returns t \<Longrightarrow>
   getVacancy e page t (only_with_salary u) = Returns items \<Longrightarrow> items \<noteq> [] \<Longrightarrow>
   \<not> q \<le> processedVacancies (processPage e u pos q page (logged st [ExtractCall page, FetchCall page t]) items) \<Longrightarrow>
   pageLoop e u pos q page st =
     pageLoop e u pos q (Suc page)
       (processPage e u pos q page (logged st [ExtractCall page, FetchCall page t]) items)"
  by (subst pageLoop.simps) (simp add: Let_def)

text \<open>An invariant of the loop holds of the state it ends in.\<close>

lemma pageLoop_invariant_break:
  assumes init: "I page st"
    and throws: "\<And>page st. I page st \<Longrightarrow> page \<le> 6 \<Longrightarrow>
      extractPosition e page (position pos) = Throws \<Longrightarrow>
      I (Suc page) (logged st [ExtractCall page])"
    and fetch: "\<And>page st t. I page st \<Longrightarrow> page \<le> 6 \<Longrightarrow>
      extractPosition e page (position pos) = Returns t \<Longrightarrow>
      I (Suc page) (logged st [ExtractCall page, FetchCall page t])"
    and continue: "\<And>page st t items. I (Suc page) st \<Longrightarrow> page \<le> 6 \<Longrightarrow>
      getVacancy e page t (only_with_salary u) = Returns items \<Longrightarrow> items \<noteq> [] \<Longrightarrow>
      \<not> q \<le> processedVacancies (processPage e u pos q page st items) \<Longrightarrow>
      I (Suc page) (processPage e u pos q page st items)"
    and break: "\<And>page st t items. I (Suc page) st \<Longrightarrow> page \<le> 6 \<Longrightarrow>
      getVacancy e page t (only_with_salary u) = Returns items \<Longrightarrow> items \<noteq> [] \<Longrightarrow>
      q \<le> processedVacancies (processPage e u pos q page st items) \<Longrightarrow>
      Q (processPage e u pos q page st items)"
    and final: "\<And>page st. I page st \<Longrightarrow> Q st"
  shows "Q (pageLoop e u pos q page st)"
  using assms
proof (induction e u pos q page st rule: pageLoop.induct)
  case (1 e u pos q page st)
  note inv = "1.prems"(1) and throws = "1.prems"(2) and fetch = "1.prems"(3)
    and continue = "1.prems"(4) and break = "1.prems"(5) and final = "1.prems"(6)
  show ?case
  proof (cases "page \<le> 6")
    case False
    have "Q st" using inv by (rule final)
    then show ?thesis
      by (simp only: pageLoop_stop [OF False])
  next
    case le: True
    then have guard: "\<not> \<not> page \<le> 6" by simp
    show ?thesis
    proof (cases "extractPosition e page (position pos)")
      case Throws
      have "I (Suc page) (logged st [ExtractCall page])"
        using inv le Throws by (rule throws)
      then have "I (page + 1) (logged st [ExtractCall page])" by simp
      then have "Q (pageLoop e u pos q (page + 1) (logged st [ExtractCall page]))"
        by (rule "1.IH"(1) [OF guard Throws _ throws fetch continue break final])
      then show ?thesis
        by (simp only: pageLoop_extract_throws [OF le Throws] Suc_eq_plus1)
    next
      case (Returns t)
      let ?st = "logged st [ExtractCall page, FetchCall page t]"
      have "I (Suc page) ?st"
        using inv le Returns by (rule fetch)
      then have inv': "I (page + 1) ?st" by simp
      show ?thesis
      proof (cases "getVacancy e page t (only_with_salary u)")
        case Throws
        have "Q (pageLoop e u pos q (page + 1) ?st)"
          using inv' by (rule "1.IH"(2) [OF guard Returns Throws _ throws fetch continue break final])
        then show ?thesis
          by (simp only: pageLoop_fetch_throws [OF le Returns Throws] Suc_eq_plus1)
      next
        case items: (Returns items)
        show ?thesis
        proof (cases "items = []")
          case True
          then have len: "length items = 0" by simp
          have "Q (pageLoop e u pos q (page + 1) ?st)"
            using inv' by (rule "1.IH"(3) [OF guard Returns items len _ throws fetch continue break final])
          then show ?thesis
            using items True by (simp only: pageLoop_empty_page [OF le Returns] Suc_eq_plus1)
        next
          case False
          then have len: "length items \<noteq> 0" by simp
          let ?st' = "processPage e u pos q page ?st items"
          have inv1: "I (Suc page) ?st"
            using inv' by simp
          show ?thesis
          proof (cases "q \<le> processedVacancies ?st'")
            case True
            have "Q ?st'" using inv1 le items False True by (rule break)
            then show ?thesis
              by (simp only: pageLoop_break [OF le Returns items False True])
          next
            case notyet: False
            have "I (Suc page) ?st'"
              using inv1 le items False notyet by (rule continue)
            then have inv'': "I (page + 1) ?st'" by simp
            have "Q (pageLoop e u pos q (page + 1) ?st')"
              using inv''
              by (rule "1.IH"(4) [OF guard Returns items len refl notyet _ throws fetch continue break final])
            then show ?thesis
              by (simp only: pageLoop_next [OF le Returns items False notyet] Suc_eq_plus1)
          qed
        qed
      qed
    qed
  qed
qed

lemma pageLoop_invariant:
  assumes init: "I page st"
    and throws: "\<And>page st. I page st \<Longrightarrow> page \<le> 6 \<Longrightarrow>
      extractPosition e page (position pos) = Throws \<Longrightarrow>
      I (Suc page) (logged st [ExtractCall page])"
    and fetch: "\<And>page st t. I page st \<Longrightarrow> page \<le> 6 \<Longrightarrow>
      extractPosition e page (position pos) = Returns t \<Longrightarrow>
      I (Suc page) (logged st [ExtractCall page, FetchCall page t])"
    and evaluate: "\<And>page st t items. I (Suc page) st \<Longrightarrow> page \<le> 6 \<Longrightarrow>
      getVacancy e page t (only_with_salary u) = Returns items \<Longrightarrow> items \<noteq> [] \<Longrightarrow>
      I (Suc page) (processPage e u pos q page st items)"
    and final: "\<And>page st. I page st \<Longrightarrow> Q st"
  shows "Q (pageLoop e u pos q page st)"
proof (rule pageLoop_invariant_break [where I = I and Q = Q])
  show "I page st" by (rule init)
next
  fix page st
  assume "I page st" "page \<le> 6" "extractPosition e page (position pos) = Throws"
  then show "I (Suc page) (logged st [ExtractCall page])" by (rule throws)
next
  fix page st t
  assume "I page st" "page \<le> 6" "extractPosition e page (position pos) = Returns t"
  then show "I (Suc page) (logged st [ExtractCall page, FetchCall page t])" by (rule fetch)
next
  fix page st t items
  assume "I (Suc page) st" "page \<le> 6" "getVacancy e page t (only_with_salary u) = Returns items"
    "items \<noteq> []"
  then show "I (Suc page) (processPage e u pos q page st items)" by (rule evaluate)
next
  fix page st t items
  assume "I (Suc page) st" "page \<le> 6" "getVacancy e page t (only_with_salary u) = Returns items"
    "items \<noteq> []"
  then have "I (Suc page) (processPage e u pos q page st items)" by (rule evaluate)
  then show "Q (processPage e u pos q page st items)" by (rule final)
next
  fix page st
  assume "I page st"
  then show "Q st" by (rule final)
qed

lemma pushed_length: "length (concat (map (pushed \<circ> f) items)) \<le> length items"
proof (induction items)
  case Nil
  show ?case by simp
next
  case (Cons v items)
  have "length (pushed (f v)) \<le> 1" by (cases "f v") simp_all
  then show ?case using Cons by simp
qed

lemma processPage_count_bound:
  "processedVacancies (processPage e u pos q page st items) \<le> processedVacancies st + length items"
  using pushed_length [of "fst \<circ> vacancyCallback e u pos q page st" items]
  by (simp add: processPage_def Let_def comp_assoc)

text \<open>
  At the start of every iteration the count is below the quota, so a run ends with at
  most \<open>quota - 1\<close> records plus those of the last page it evaluated.
\<close>

lemma pageLoop_overshoot_bound:
  assumes "0 < q"
    and "\<And>page t items. getVacancy e page t (only_with_salary u) = Returns items \<Longrightarrow> length items \<le> m"
  shows "processedVacancies (pageLoop e u pos q 1 initial_state) < q + m"
proof (rule pageLoop_invariant_break [where I = "\<lambda>page st. processedVacancies st < q"])
  show "processedVacancies initial_state < q"
    using assms(1) by (simp add: initial_state_def)
next
  fix page t items and st :: run_state
  assume "processedVacancies st < q" "getVacancy e page t (only_with_salary u) = Returns items"
  then show "processedVacancies (processPage e u pos q page st items) < q + m"
    using processPage_count_bound [of e u pos q page st items] assms(2) [of page t items] by simp
qed (simp_all add: logged_def)

lemma logged_calls [simp]: "calls (logged st evs) = calls st @ evs"
  by (simp add: logged_def)

lemma logged_docs [simp]:
  "vacancyDocs (logged st evs) = vacancyDocs st"
  "processedVacancies (logged st evs) = processedVacancies st"
  by (simp_all add: logged_def)

lemma processPage_fetch_calls:
  "(FetchCall p t \<in> set (calls (processPage e u pos q page st items))) = (FetchCall p t \<in> set (calls st))"
  using processPage_calls [of e u pos q page st items]
  by (auto simp: negotiations_only)

lemma pageLoop_fetched:
  "sorted_wrt (<) (fetchedPages (calls (pageLoop e u pos q 1 initial_state))) \<and>
   set (fetchedPages (calls (pageLoop e u pos q 1 initial_state))) \<subseteq> {1..6}"
proof (rule pageLoop_invariant
    [where I = "\<lambda>page st. 1 \<le> page \<and> sorted_wrt (<) (fetchedPages (calls st)) \<and>
                  (\<forall>p \<in> set (fetchedPages (calls st)). 1 \<le> p \<and> p < page \<and> p \<le> 6)"])
  show "1 \<le> (1::nat) \<and> sorted_wrt (<) (fetchedPages (calls initial_state)) \<and>
        (\<forall>p \<in> set (fetchedPages (calls initial_state)). 1 \<le> p \<and> p < 1 \<and> p \<le> 6)"
    by (simp add: initial_state_def)
qed (auto simp: fetchedPages_append processPage_fetched sorted_wrt_append)

lemma pageLoop_fetch_term:
  "FetchCall p t \<in> set (calls (pageLoop e u pos q 1 initial_state)) \<Longrightarrow>
   extractPosition e p (position pos) = Returns t \<and>
   p \<in> set (extractedPages (calls (pageLoop e u pos q 1 initial_state)))"
proof -
  have "\<forall>p t. FetchCall p t \<in> set (calls (pageLoop e u pos q 1 initial_state)) \<longrightarrow>
     extractPosition e p (position pos) = Returns t \<and>
     p \<in> set (extractedPages (calls (pageLoop e u pos q 1 initial_state)))"
  proof (rule pageLoop_invariant
    [where I = "\<lambda>page st. \<forall>p t. FetchCall p t \<in> set (calls st) \<longrightarrow>
       extractPosition e p (position pos) = Returns t \<and> p \<in> set (extractedPages (calls st))"])
    show "\<forall>p t. FetchCall p t \<in> set (calls initial_state) \<longrightarrow>
       extractPosition e p (position pos) = Returns t \<and> p \<in> set (extractedPages (calls initial_state))"
      by (simp add: initial_state_def)
  qed (auto simp: extractedPages_append processPage_extracted processPage_fetch_calls)
  then show "FetchCall p t \<in> set (calls (pageLoop e u pos q 1 initial_state)) \<Longrightarrow>
   extractPosition e p (position pos) = Returns t \<and>
   p \<in> set (extractedPages (calls (pageLoop e u pos q 1 initial_state)))" by blast
qed

lemma pageLoop_extracted:
  "extractedPages (calls (pageLoop e u pos q 1 initial_state)) =
     [1 ..< Suc (length (extractedPages (calls (pageLoop e u pos q 1 initial_state))))] \<and>
   length (extractedPages (calls (pageLoop e u pos q 1 initial_state))) \<le> 6"
proof (rule pageLoop_invariant
    [where I = "\<lambda>page st. 1 \<le> page \<and> page \<le> 7 \<and> extractedPages (calls st) = [1 ..< page]"])
  show "1 \<le> (1::nat) \<and> (1::nat) \<le> 7 \<and> extractedPages (calls initial_state) = [1 ..< 1]"
    by (simp add: initial_state_def)
qed (auto simp: extractedPages_append processPage_extracted)

lemma processPage_docs:
  "d \<in> set (vacancyDocs st) \<Longrightarrow> d \<in> set (vacancyDocs (processPage e u pos q page st items))"
  by (simp add: processPage_def Let_def)

lemma processPage_count:
  "processedVacancies st = length (vacancyDocs st) \<Longrightarrow>
   processedVacancies (processPage e u pos q page st items) =
     length (vacancyDocs (processPage e u pos q page st items))"
  by (simp add: processPage_def Let_def)

lemma pageLoop_keeps_docs:
  "d \<in> set (vacancyDocs st) \<Longrightarrow> d \<in> set (vacancyDocs (pageLoop e u pos q page st))"
  by (rule pageLoop_invariant [where I = "\<lambda>page st. d \<in> set (vacancyDocs st)"])
     (auto simp: processPage_docs)

lemma pageLoop_count:
  "processedVacancies st = length (vacancyDocs st) \<Longrightarrow>
   processedVacancies (pageLoop e u pos q page st) = length (vacancyDocs (pageLoop e u pos q page st))"
  by (rule pageLoop_invariant [where I = "\<lambda>page st. processedVacancies st = length (vacancyDocs st)"])
     (auto simp: processPage_count)

lemma fetchedPages_mem: "(p \<in> set (fetchedPages evs)) = (\<exists>t. FetchCall p t \<in> set evs)"
  by (induction evs rule: fetchedPages.induct) auto

lemma processVacancies_calls:
  "applicationsPerPosition u = Some quota \<Longrightarrow>
   snd (processVacancies e u pos) = calls (pageLoop e u pos quota 1 initial_state)"
  by (simp add: processVacancies_def Let_def)

lemma processVacancies_no_positions:
  "applicationsPerPosition u = None \<Longrightarrow> processVacancies e u pos = (None, [])"
  by (simp add: processVacancies_def)

lemma processPage_pushed:
  "v \<in> set items \<Longrightarrow> fst (vacancyCallback e u pos q page st v) = Accumulated d \<Longrightarrow>
   d \<in> set (vacancyDocs (processPage e u pos q page st items))"
  by (force simp: processPage_def Let_def)

lemma processPage_nothing:
  "(\<And>v. v \<in> set items \<Longrightarrow> pushed (fst (vacancyCallback e u pos q page st v)) = []) \<Longrightarrow>
   vacancyDocs (processPage e u pos q page st items) = vacancyDocs st"
  by (simp add: processPage_def Let_def)

lemma pageLoop_nothing:
  assumes "\<And>page st v. pushed (fst (vacancyCallback e u pos q page st v)) = []"
  shows "vacancyDocs (pageLoop e u pos q 1 initial_state) = []"
  by (rule pageLoop_invariant [where I = "\<lambda>page st. vacancyDocs st = []"])
     (simp_all add: initial_state_def processPage_nothing assms)

lemma processVacancies_nothing:
  assumes "\<And>q page st v. pushed (fst (vacancyCallback e u pos q page st v)) = []"
  shows "fst (processVacancies e u pos) = None"
  using pageLoop_nothing [OF assms]
  by (simp add: processVacancies_def Let_def split: option.splits)

lemma processVacancies_inserted:
  "applicationsPerPosition u = Some quota \<Longrightarrow>
   d \<in> set (vacancyDocs (pageLoop e u pos quota 1 initial_state)) \<Longrightarrow>
   fst (processVacancies e u pos) = Some (vacancyDocs (pageLoop e u pos quota 1 initial_state))"
  by (auto simp: processVacancies_def Let_def)

lemma classifier_failure:
  "suitableCompletion e page p v = Throws \<or>
     (\<exists>t. suitableCompletion e page p v = Returns t \<and> jsonIsSuitable e t = Throws) \<Longrightarrow>
   \<not> isSuitableVacancy e page p v"
  by (auto simp: isSuitableVacancy_def)

lemma unsuitable_skipped:
  "\<not> isSuitableVacancy e page (position pos) v \<Longrightarrow>
   pushed (fst (vacancyCallback e u pos q page st v)) = [] \<and>
   snd (vacancyCallback e u pos q page st v) = []"
  by (simp add: vacancyCallback_def split: outcome.splits)

lemma pushed_empty: "(pushed r = []) = (\<forall>d. r \<noteq> Accumulated d)"
  by (cases r) simp_all

lemma generateCoverLetter_None:
  "coverLetterCompletion e page v r = Throws \<or> coverLetterCompletion e page v r = Returns None \<Longrightarrow>
   generateCoverLetter e page v r = None"
  by (auto simp: generateCoverLetter_def)

lemma no_account_callback:
  "\<not> hasHHAccount u \<Longrightarrow>
   vacancyCallback e u pos q page st v =
     (if q \<le> processedVacancies st \<or> alreadyInVacancyDocs (vacancyDocs st) v then (Skipped, [])
      else case findOne e page (id_u u) (name_v v) of
             Throws \<Rightarrow> (Rejected, [])
           | Returns found \<Rightarrow>
               if found \<or> \<not> isSuitableVacancy e page (position pos) v
                  \<or> \<not> truthy (generateCoverLetter e page v [])
               then (Skipped, [])
               else (Accumulated (vacancyDoc u v (generateCoverLetter e page v [])), []))"
  by (simp add: vacancyCallback_def Let_def split: outcome.splits)

lemma processPage_called:
  "v \<in> set items \<Longrightarrow> ev \<in> set (snd (vacancyCallback e u pos q page st v)) \<Longrightarrow>
   ev \<in> set (calls (processPage e u pos q page st items))"
  by (auto simp: processPage_def Let_def)

lemma linked_account_callback:
  "hasHHAccount u \<Longrightarrow> \<not> q \<le> processedVacancies st \<Longrightarrow>
   \<not> alreadyInVacancyDocs (vacancyDocs st) v \<Longrightarrow>
   findOne e page (id_u u) (name_v v) = Returns False \<Longrightarrow>
   isSuitableVacancy e page (position pos) v \<Longrightarrow>
   getOneResume e page (getSuitableResumeId e page (id_v v) (hhAccessToken u)) (hhAccessToken u)
     = Returns link \<Longrightarrow>
   loadPDF e page link (hhAccessToken u) = Returns pdf \<Longrightarrow>
   vacancyCallback e u pos q page st v =
     (Accumulated (vacancyDoc u v (generateCoverLetter e page v pdf)),
      [NegotiationCall (id_v v) (getSuitableResumeId e page (id_v v) (hhAccessToken u))
         (generateCoverLetter e page v pdf)])"
  by (simp add: vacancyCallback_def Let_def sendNegotiation_def split: outcome.splits)

lemma vacancyCallback_positions:
  "vacancyCallback e (u\<lparr>positions := ps\<rparr>) pos q page st = vacancyCallback e u pos q page st"
  by (rule ext) (simp add: vacancyCallback_def vacancyDoc_def Let_def split: outcome.splits)

lemma processPage_positions:
  "processPage e (u\<lparr>positions := ps\<rparr>) pos q page st items = processPage e u pos q page st items"
  by (simp add: processPage_def vacancyCallback_positions)

lemma pageLoop_positions:
  "pageLoop e (u\<lparr>positions := ps\<rparr>) pos q page st = pageLoop e u pos q page st"
proof (induction e u pos q page st rule: pageLoop.induct)
  case (1 e u pos q page st)
  show ?case
    apply (subst pageLoop.simps [of e "u\<lparr>positions := ps\<rparr>"])
    apply (subst pageLoop.simps [of e u])
    using 1
    apply (simp add: processPage_positions Let_def split: outcome.splits)
    done
qed

lemma dedup_skips:
  "alreadyInVacancyDocs (vacancyDocs st) v \<or> findOne e page (id_u u) (name_v v) = Returns True \<Longrightarrow>
   vacancyCallback e u pos q page st v = (Skipped, [])"
  by (auto simp: vacancyCallback_def)

lemma stateAt_pageLoop:
  "stateAt e u pos q page = Some st \<Longrightarrow>
   pageLoop e u pos q 1 initial_state = pageLoop e u pos q page st"
proof (induction page arbitrary: st)
  case 0
  then show ?case by (simp add: stateAt.simps)
next
  case (Suc n)
  show ?case
  proof (cases "n = 0")
    case True
    then show ?thesis using Suc.prems by (simp add: stateAt.simps)
  next
    case False
    then obtain st0 where st0: "stateAt e u pos q n = Some st0"
      using Suc.prems by (subst (asm) stateAt.simps) (simp split: option.splits)
    have le: "n \<le> 6"
      using Suc.prems False st0 by (subst (asm) stateAt.simps) (simp split: if_splits)
    have step: "pageLoop e u pos q n st0 = pageLoop e u pos q (Suc n) st"
      using Suc.prems False st0 le
      apply (subst (asm) stateAt.simps)
      apply (subst pageLoop.simps)
      apply (auto simp: Let_def split: outcome.splits if_splits)
      done
    show ?thesis
      using Suc.IH [OF st0] step by simp
  qed
qed

lemma pageLoop_accumulated:
  assumes "page \<le> 6"
    and "extractPosition e page (position pos) = Returns t"
    and "getVacancy e page t (only_with_salary u) = Returns items"
    and "v \<in> set items"
    and "fst (vacancyCallback e u pos q page (logged st [ExtractCall page, FetchCall page t]) v)
           = Accumulated d"
  shows "d \<in> set (vacancyDocs (pageLoop e u pos q page st))"
proof -
  let ?st' = "processPage e u pos q page (logged st [ExtractCall page, FetchCall page t]) items"
  have items: "items \<noteq> []" using assms(4) by auto
  have d: "d \<in> set (vacancyDocs ?st')"
    using assms(4,5) by (rule processPage_pushed)
  show ?thesis
  proof (cases "q \<le> processedVacancies ?st'")
    case True
    then show ?thesis
      using d by (simp add: pageLoop_break [OF assms(1-3) items])
  next
    case False
    then show ?thesis
      using d by (simp add: pageLoop_next [OF assms(1-3) items] pageLoop_keeps_docs)
  qed
qed

lemma processVacancies_runResult:
  "applicationsPerPosition u = Some q \<Longrightarrow>
   processVacancies e u pos = runResult (pageLoop e u pos q 1 initial_state)"
  by (simp add: processVacancies_def runResult_def Let_def)

lemma refreshAccessToken_positions: "positions (refreshAccessToken tokenResponse u) = positions u"
  by (simp add: refreshAccessToken_def split: outcome.splits prod.splits)

section \<open>Properties\<close>

text \<open>
  C1. The quota policy is a total function of the criterion count: 7 up to four
  criteria, 2 from eight criteria on, 6 in between; so it never increases when the
  count grows.
\<close>

theorem getApplicationsPerPosition_step:
  "getApplicationsPerPosition c = (if c \<le> 4 then 7 else if c \<ge> 8 then 2 else 6) \<and>
   (\<forall>a b. a \<le> b \<longrightarrow> getApplicationsPerPosition b \<le> getApplicationsPerPosition a)"
  by (simp add: getApplicationsPerPosition_def)

theorem getApplicationsPerPosition_step_witness:
  "getApplicationsPerPosition 3 = 7 \<and> getApplicationsPerPosition 5 = 6 \<and>
   getApplicationsPerPosition 8 = 2 \<and> (3::nat) \<le> 8 \<and>
   getApplicationsPerPosition 8 \<le> getApplicationsPerPosition 3"
  using getApplicationsPerPosition_step [of 3] getApplicationsPerPosition_step [of 5]
    getApplicationsPerPosition_step [of 8]
  by simp

text \<open>
  C2 says that the quota of a run is computed from the number of the user's active
  criteria. This user has five criteria, one of them active: the quota of the run is 6
  (for five criteria), not 7 (for one), and after a first page that yields six records
  the run stops, where the run of a user with that one criterion alone goes on to page 6.
\<close>

theorem quota_from_active_count_counterexample:
  "positions mixed_user = Some mixed_positions \<and>
   activePositions mixed_user = [sample_position] \<and>
   length (filter (\<lambda>p. status p = ''Active'') mixed_positions) = 1 \<and>
   getApplicationsPerPosition 1 = 7 \<and>
   applicationsPerPosition mixed_user = Some 6 \<and>
   applicationsPerPosition mixed_user \<noteq>
     Some (getApplicationsPerPosition (length (filter (\<lambda>p. status p = ''Active'') mixed_positions))) \<and>
   fetchedPages (snd (processVacancies (sample_env six_on_page_one) mixed_user sample_position)) = [1] \<and>
   fetchedPages (snd (processVacancies (sample_env six_on_page_one) (sample_user 1 False) sample_position))
     = [1, 2, 3, 4, 5, 6]"
  by (simp add: sample_defs pipeline_defs activePositions_def pageLoop.simps)

text \<open>
  C2, as the code has it. The quota of a run is computed from the number of all
  criteria of the user (\<open>user.positions.length\<close>), whatever their status: a run is the
  page loop under the quota for that number, and two lists of criteria of the same
  length give the same run. The status decides only which criteria get a run: the
  worker of \<open>processUsers\<close> starts one for each criterion that has a text and the status
  \<open>'Active'\<close>, each under that same quota, and none for the others. When no page has
  more than \<open>m\<close> postings, a run hands fewer than that quota plus \<open>m\<close> records to the
  store.
\<close>

theorem quota_from_position_count:
  "(positions u = Some ps \<longrightarrow>
      applicationsPerPosition u = Some (getApplicationsPerPosition (length ps)) \<and>
      processVacancies e u pos =
        runResult (pageLoop e u pos (getApplicationsPerPosition (length ps)) 1 initial_state) \<and>
      positionPromises tokenResponse es u =
        Returns (map (\<lambda>(i, p).
                   if position p \<noteq> [] \<and> status p = ''Active''
                   then Some (runResult (pageLoop (es i) (refreshAccessToken tokenResponse u) p
                                (getApplicationsPerPosition (length ps)) 1 initial_state))
                   else None)
                 (enumerate 0 ps))) \<and>
   (length ps' = length ps \<longrightarrow>
      processVacancies e (u\<lparr>positions := Some ps'\<rparr>) pos =
        processVacancies e (u\<lparr>positions := Some ps\<rparr>) pos) \<and>
   (positions u = Some ps \<and>
    (\<forall>page t items. getVacancy e page t (only_with_salary u) = Returns items \<longrightarrow>
       length items \<le> m) \<and>
    fst (processVacancies e u pos) = Some docs \<longrightarrow>
      length docs < getApplicationsPerPosition (length ps) + m)"
proof -
  have quota: "applicationsPerPosition u = Some (getApplicationsPerPosition (length ps))"
    if "positions u = Some ps"
    using that by (simp add: applicationsPerPosition_def)
  have run: "processVacancies e u pos =
        runResult (pageLoop e u pos (getApplicationsPerPosition (length ps)) 1 initial_state)"
    if "positions u = Some ps" for e u pos
    using that by (simp add: processVacancies_runResult applicationsPerPosition_def)
  have worker: "positionPromises tokenResponse es u =
        Returns (map (\<lambda>(i, p).
                   if position p \<noteq> [] \<and> status p = ''Active''
                   then Some (runResult (pageLoop (es i) (refreshAccessToken tokenResponse u) p
                                (getApplicationsPerPosition (length ps)) 1 initial_state))
                   else None)
                 (enumerate 0 ps))"
    if ps: "positions u = Some ps"
  proof -
    have ps': "positions (refreshAccessToken tokenResponse u) = Some ps"
      using ps by (simp add: refreshAccessToken_positions)
    have run': "processVacancies e (refreshAccessToken tokenResponse u) pos =
        runResult (pageLoop e (refreshAccessToken tokenResponse u) pos
          (getApplicationsPerPosition (length ps)) 1 initial_state)" for e pos
      using ps' by (rule run)
    show ?thesis
      by (simp only: positionPromises_def Let_def ps' run' option.case)
  qed
  have same: "processVacancies e (u\<lparr>positions := Some ps'\<rparr>) pos =
        processVacancies e (u\<lparr>positions := Some ps\<rparr>) pos"
    if "length ps' = length ps"
    using that by (simp add: processVacancies_def applicationsPerPosition_def pageLoop_positions)
  have bound: "length docs < getApplicationsPerPosition (length ps) + m"
    if ps: "positions u = Some ps"
      and sizes: "\<forall>page t items. getVacancy e page t (only_with_salary u) = Returns items \<longrightarrow>
         length items \<le> m"
      and docs: "fst (processVacancies e u pos) = Some docs"
  proof -
    let ?q = "getApplicationsPerPosition (length ps)"
    let ?st = "pageLoop e u pos ?q 1 initial_state"
    have "0 < ?q" by (simp add: getApplicationsPerPosition_def)
    then have "processedVacancies ?st < ?q + m"
      using sizes by (intro pageLoop_overshoot_bound) auto
    moreover have "processedVacancies ?st = length (vacancyDocs ?st)"
      by (rule pageLoop_count) (simp add: initial_state_def)
    moreover have "docs = vacancyDocs ?st"
      using docs run [OF ps, of e pos] by (simp add: runResult_def split: if_splits)
    ultimately show ?thesis by simp
  qed
  show ?thesis
    using quota run [of u e pos] worker same bound by blast
qed

theorem quota_from_position_count_witness:
  "positions mixed_user = Some mixed_positions \<and>
   length mixed_positions = 5 \<and>
   applicationsPerPosition mixed_user = Some (getApplicationsPerPosition 5) \<and>
   getApplicationsPerPosition 5 = 6 \<and>
   processVacancies (sample_env six_on_page_one) mixed_user sample_position =
     runResult (pageLoop (sample_env six_on_page_one) mixed_user sample_position 6 1 initial_state) \<and>
   fetchedPages (snd (processVacancies (sample_env six_on_page_one) mixed_user sample_position)) = [1] \<and>
   positionPromises Throws (\<lambda>i. sample_env six_on_page_one) mixed_user =
     Returns [Some (runResult (pageLoop (sample_env six_on_page_one) mixed_user sample_position 6 1
                      initial_state)),
              None, None, None, None] \<and>
   \<not> (\<exists>page t items. getVacancy (sample_env six_on_page_one) page t (only_with_salary mixed_user)
        = Returns items \<and> 6 < length items) \<and>
   map_option length (fst (processVacancies (sample_env six_on_page_one) mixed_user sample_position))
     = Some 6 \<and>
   (6::nat) < getApplicationsPerPosition 5 + 6 \<and>
   length (replicate 5 sample_position) = length mixed_positions \<and>
   processVacancies (sample_env six_on_page_one)
       (mixed_user\<lparr>positions := Some (replicate 5 sample_position)\<rparr>) sample_position =
     processVacancies (sample_env six_on_page_one)
       (mixed_user\<lparr>positions := Some mixed_positions\<rparr>) sample_position"
proof -
  note a = quota_from_position_count [where u = mixed_user and ps = mixed_positions
      and ps' = "replicate 5 sample_position" and e = "sample_env six_on_page_one"
      and pos = sample_position and tokenResponse = Throws
      and es = "\<lambda>i. sample_env six_on_page_one" and m = 6]
  have hyps: "positions mixed_user = Some mixed_positions" "length mixed_positions = 5"
    "getApplicationsPerPosition 5 = 6"
    by (simp_all add: mixed_user_def mixed_positions_def getApplicationsPerPosition_def)
  have refreshed: "refreshAccessToken Throws mixed_user = mixed_user"
    by (simp add: refreshAccessToken_def)
  have listed: "enumerate 0 mixed_positions =
      [(0, sample_position), (1, \<lparr>position = ''qa'', status = ''Paused''\<rparr>),
       (2, \<lparr>position = ''qa'', status = ''Paused''\<rparr>), (3, \<lparr>position = ''qa'', status = ''Paused''\<rparr>),
       (4, \<lparr>position = ''qa'', status = ''Paused''\<rparr>)]"
    by (simp add: mixed_positions_def eval_nat_numeral)
  have active: "position sample_position \<noteq> [] \<and> status sample_position = ''Active''"
    by (simp add: sample_position_def)
  have fetched:
    "fetchedPages (snd (processVacancies (sample_env six_on_page_one) mixed_user sample_position)) = [1]"
    by (simp add: sample_defs pipeline_defs pageLoop.simps)
  have sizes: "\<forall>page t items. getVacancy (sample_env six_on_page_one) page t
      (only_with_salary mixed_user) = Returns items \<longrightarrow> length items \<le> 6"
    by (auto simp: sample_defs)
  have six: "map_option length
      (fst (processVacancies (sample_env six_on_page_one) mixed_user sample_position)) = Some 6"
    by (simp add: sample_defs pipeline_defs pageLoop.simps)
  show ?thesis
    using a hyps refreshed active fetched sizes six by (simp add: listed not_less)
qed

text \<open>
  C3 says that a run never accumulates more records than the quota. For a user with
  eight criteria the quota is 2; when the first page has three suitable postings the
  run accumulates three records and hands them to the store, because every callback of
  the page tests the count (line 482) before any callback of the page has counted its
  record (line 526). The count is tested again between pages (line 531), so a run ends
  with at most \<open>quota - 1\<close> records and those of its last page
  (\<open>pageLoop_overshoot_bound\<close>).
\<close>

theorem quota_overshoot_on_one_page:
  "applicationsPerPosition (sample_user 8 False) = Some 2 \<and>
   map_option length
     (fst (processVacancies (sample_env three_on_page_one) (sample_user 8 False) sample_position))
     = Some 3"
  by (simp add: sample_defs pipeline_defs pageLoop.simps)

text \<open>
  C4 says that a combination of title and employer yields at most one record in a run.
  Two postings of one page with the same title and the same employer both yield a
  record, because every callback of the page tests the accumulated records (line 485)
  before any callback of the page has pushed its record (line 525). The test does skip
  a posting that matches a record of an earlier page or a stored record
  (\<open>dedup_skips\<close>).
\<close>

theorem twins_on_one_page_both_recorded:
  "fst (processVacancies (sample_env twins_on_page_one) (sample_user 1 False) sample_position) =
     Some [vacancyDoc (sample_user 1 False) (sample_posting ''1'' ''a'' ''x'') (Some ''letter''),
           vacancyDoc (sample_user 1 False) (sample_posting ''2'' ''a'' ''x'') (Some ''letter'')] \<and>
   map_option (map (\<lambda>d. (job_name d, employer_name d)))
     (fst (processVacancies (sample_env twins_on_page_one) (sample_user 1 False) sample_position)) =
     Some [(''a'', ''x''), (''a'', ''x'')]"
  by (simp add: sample_defs pipeline_defs pageLoop.simps)

text \<open>
  C5. When the relevance classifier fails for a posting (its completion call rejects, or
  the answer cannot be parsed), \<open>isSuitableVacancy\<close> answers false, the posting's
  callback accumulates no record and submits nothing; when it fails for every posting of
  every page, the run hands nothing to the store.
\<close>

theorem classifier_fail_closed:
  "(suitableCompletion e page (position pos) v = Throws \<or>
      (\<exists>t. suitableCompletion e page (position pos) v = Returns t \<and> jsonIsSuitable e t = Throws) \<longrightarrow>
      \<not> isSuitableVacancy e page (position pos) v \<and>
      (\<forall>d. fst (vacancyCallback e u pos q page st v) \<noteq> Accumulated d) \<and>
      snd (vacancyCallback e u pos q page st v) = []) \<and>
   ((\<forall>page v. suitableCompletion e page (position pos) v = Throws \<or>
       (\<exists>t. suitableCompletion e page (position pos) v = Returns t \<and> jsonIsSuitable e t = Throws)) \<longrightarrow>
      fst (processVacancies e u pos) = None)"
proof -
  have one: "\<not> isSuitableVacancy e page (position pos) v \<and>
      (\<forall>d. fst (vacancyCallback e u pos q page st v) \<noteq> Accumulated d) \<and>
      snd (vacancyCallback e u pos q page st v) = []"
    if "suitableCompletion e page (position pos) v = Throws \<or>
      (\<exists>t. suitableCompletion e page (position pos) v = Returns t \<and> jsonIsSuitable e t = Throws)"
    using classifier_failure [OF that] unsuitable_skipped [of e page pos v u q st]
    by (simp add: pushed_empty)
  have every: "fst (processVacancies e u pos) = None"
    if all: "\<forall>page v. suitableCompletion e page (position pos) v = Throws \<or>
       (\<exists>t. suitableCompletion e page (position pos) v = Returns t \<and> jsonIsSuitable e t = Throws)"
  proof (rule processVacancies_nothing)
    fix q page st v
    have "\<not> isSuitableVacancy e page (position pos) v"
      using all by (intro classifier_failure) blast
    then show "pushed (fst (vacancyCallback e u pos q page st v)) = []"
      by (simp add: unsuitable_skipped)
  qed
  show ?thesis using one every by blast
qed

theorem classifier_fail_closed_witness:
  "suitableCompletion (classifier_fails three_on_page_one) 1 (position sample_position)
     (sample_posting ''1'' ''a'' ''x'') = Throws \<and>
   \<not> isSuitableVacancy (classifier_fails three_on_page_one) 1 (position sample_position)
     (sample_posting ''1'' ''a'' ''x'') \<and>
   vacancyCallback (classifier_fails three_on_page_one) (sample_user 1 True) sample_position 7 1
     initial_state (sample_posting ''1'' ''a'' ''x'') = (Skipped, []) \<and>
   fst (processVacancies (classifier_fails three_on_page_one) (sample_user 1 True) sample_position) = None \<and>
   suitableCompletion (classifier_unparsable three_on_page_one) 1 (position sample_position)
     (sample_posting ''1'' ''a'' ''x'') = Returns ''json'' \<and>
   jsonIsSuitable (classifier_unparsable three_on_page_one) ''json'' = Throws \<and>
   vacancyCallback (classifier_unparsable three_on_page_one) (sample_user 1 False) sample_position 7 1
     initial_state (sample_posting ''1'' ''a'' ''x'') = (Skipped, []) \<and>
   fst (processVacancies (classifier_unparsable three_on_page_one) (sample_user 1 False) sample_position) = None"
proof -
  note a = classifier_fail_closed [where e = "classifier_fails three_on_page_one" and page = 1
      and pos = sample_position and v = "sample_posting ''1'' ''a'' ''x''" and u = "sample_user 1 True"
      and q = 7 and st = initial_state]
  note b = classifier_fail_closed [where e = "classifier_unparsable three_on_page_one" and page = 1
      and pos = sample_position and v = "sample_posting ''1'' ''a'' ''x''" and u = "sample_user 1 False"
      and q = 7 and st = initial_state]
  have ha: "suitableCompletion (classifier_fails three_on_page_one) page (position sample_position) v = Throws"
    for page v
    by (simp add: sample_defs)
  have hb: "suitableCompletion (classifier_unparsable three_on_page_one) page (position sample_position) v
      = Returns ''json'' \<and> jsonIsSuitable (classifier_unparsable three_on_page_one) ''json'' = Throws"
    for page v
    by (simp add: sample_defs)
  have ca: "vacancyCallback (classifier_fails three_on_page_one) (sample_user 1 True) sample_position 7 1
     initial_state (sample_posting ''1'' ''a'' ''x'') = (Skipped, [])"
    by (simp add: sample_defs pipeline_defs)
  have cb: "vacancyCallback (classifier_unparsable three_on_page_one) (sample_user 1 False) sample_position 7 1
     initial_state (sample_posting ''1'' ''a'' ''x'') = (Skipped, [])"
    by (simp add: sample_defs pipeline_defs)
  show ?thesis
    using a b ha hb ca cb by simp
qed

text \<open>
  C6. For a user without a linked account, a posting for which the document generator
  returns null (its completion call rejects, or the completion has no content) yields
  no record; every record such a user's callback accumulates carries a letter that is not
  empty; and when the generator returns null for every posting, the run hands nothing to
  the store.
\<close>

theorem no_account_no_letter_no_record:
  "(\<not> hasHHAccount u \<and> generateCoverLetter e page v [] = None \<longrightarrow>
      (\<forall>d. fst (vacancyCallback e u pos q page st v) \<noteq> Accumulated d) \<and>
      snd (vacancyCallback e u pos q page st v) = []) \<and>
   (\<not> hasHHAccount u \<and> fst (vacancyCallback e u pos q page st v) = Accumulated d \<longrightarrow>
      (\<exists>letter. letter \<noteq> [] \<and> generateCoverLetter e page v [] = Some letter \<and>
         d = vacancyDoc u v (Some letter) \<and> cover_letter d = Some letter)) \<and>
   (coverLetterCompletion e page v [] = Throws \<or> coverLetterCompletion e page v [] = Returns None \<longrightarrow>
      generateCoverLetter e page v [] = None) \<and>
   (\<not> hasHHAccount u \<and> (\<forall>page v. generateCoverLetter e page v [] = None) \<longrightarrow>
      fst (processVacancies e u pos) = None)"
proof -
  have none: "(\<forall>d. fst (vacancyCallback e u pos q page st v) \<noteq> Accumulated d) \<and>
      snd (vacancyCallback e u pos q page st v) = []"
    if "\<not> hasHHAccount u" "generateCoverLetter e page v [] = None"
    using that by (simp add: no_account_callback truthy_def split: outcome.splits)
  have some: "\<exists>letter. letter \<noteq> [] \<and> generateCoverLetter e page v [] = Some letter \<and>
         d = vacancyDoc u v (Some letter) \<and> cover_letter d = Some letter"
    if "\<not> hasHHAccount u" "fst (vacancyCallback e u pos q page st v) = Accumulated d"
    using that
    by (auto simp: no_account_callback truthy_def vacancyDoc_def split: outcome.splits if_splits option.splits)
  have every: "fst (processVacancies e u pos) = None"
    if "\<not> hasHHAccount u" "\<forall>page v. generateCoverLetter e page v [] = None"
  proof (rule processVacancies_nothing)
    fix q page st v
    show "pushed (fst (vacancyCallback e u pos q page st v)) = []"
      using that by (simp add: no_account_callback truthy_def split: outcome.splits)
  qed
  show ?thesis
    using none some every generateCoverLetter_None [of e page v "[]"] by blast
qed

theorem no_account_no_letter_no_record_witness:
  "\<not> hasHHAccount (sample_user 1 False) \<and>
   coverLetterCompletion (generator_fails three_on_page_one) 1 (sample_posting ''1'' ''a'' ''x'') [] = Throws \<and>
   generateCoverLetter (generator_fails three_on_page_one) 1 (sample_posting ''1'' ''a'' ''x'') [] = None \<and>
   vacancyCallback (generator_fails three_on_page_one) (sample_user 1 False) sample_position 7 1
     initial_state (sample_posting ''1'' ''a'' ''x'') = (Skipped, []) \<and>
   fst (processVacancies (generator_fails three_on_page_one) (sample_user 1 False) sample_position) = None \<and>
   fst (vacancyCallback (sample_env three_on_page_one) (sample_user 1 False) sample_position 7 1
     initial_state (sample_posting ''1'' ''a'' ''x'')) =
     Accumulated (vacancyDoc (sample_user 1 False) (sample_posting ''1'' ''a'' ''x'') (Some ''letter'')) \<and>
   cover_letter (vacancyDoc (sample_user 1 False) (sample_posting ''1'' ''a'' ''x'') (Some ''letter''))
     = Some ''letter''"
proof -
  note a = no_account_no_letter_no_record [where e = "generator_fails three_on_page_one" and page = 1
      and pos = sample_position and v = "sample_posting ''1'' ''a'' ''x''" and u = "sample_user 1 False"
      and q = 7 and st = initial_state]
  note b = no_account_no_letter_no_record [where e = "sample_env three_on_page_one" and page = 1
      and pos = sample_position and v = "sample_posting ''1'' ''a'' ''x''" and u = "sample_user 1 False"
      and q = 7 and st = initial_state
      and d = "vacancyDoc (sample_user 1 False) (sample_posting ''1'' ''a'' ''x'') (Some ''letter'')"]
  have ha: "\<not> hasHHAccount (sample_user 1 False)"
    "coverLetterCompletion (generator_fails three_on_page_one) page v [] = Throws" for page v
    by (simp_all add: sample_defs)
  have ca: "vacancyCallback (generator_fails three_on_page_one) (sample_user 1 False) sample_position 7 1
     initial_state (sample_posting ''1'' ''a'' ''x'') = (Skipped, [])"
    by (simp add: sample_defs pipeline_defs)
  have cb: "fst (vacancyCallback (sample_env three_on_page_one) (sample_user 1 False) sample_position 7 1
     initial_state (sample_posting ''1'' ''a'' ''x'')) =
     Accumulated (vacancyDoc (sample_user 1 False) (sample_posting ''1'' ''a'' ''x'') (Some ''letter''))"
    by (simp add: sample_defs pipeline_defs)
  have ga: "generateCoverLetter (generator_fails three_on_page_one) page v [] = None" for page v
    by (simp add: sample_defs generateCoverLetter_def)
  show ?thesis
    using a b ha ca cb ga by (simp add: vacancyDoc_def)
qed

text \<open>
  C7. \<open>sendNegotiation\<close> never throws: a rejected submission request becomes the soft
  failure result. So for a user with a linked account the callback of a posting that
  reaches the submission accumulates its record whatever the request does; a record
  accumulated on a page is in the state after the page and stays there until the loop
  ends. Hence, when the run reaches a page with such a posting, the record of the posting
  is in the list the run hands to \<open>insertMany\<close>.
\<close>

theorem submission_failure_is_soft:
  "sendNegotiation e page vacancyId resumeId message token \<noteq> Throws \<and>
   (negotiationsPost e page vacancyId resumeId (if truthy message then message else None) token = Throws \<longrightarrow>
      sendNegotiation e page vacancyId resumeId message token = Returns SoftFailure) \<and>
   (hasHHAccount u \<and> \<not> q \<le> processedVacancies st \<and>
    \<not> alreadyInVacancyDocs (vacancyDocs st) v \<and>
    findOne e page (id_u u) (name_v v) = Returns False \<and>
    isSuitableVacancy e page (position pos) v \<and>
    getOneResume e page (getSuitableResumeId e page (id_v v) (hhAccessToken u)) (hhAccessToken u)
      = Returns link \<and>
    loadPDF e page link (hhAccessToken u) = Returns pdf \<longrightarrow>
      fst (vacancyCallback e u pos q page st v) =
        Accumulated (vacancyDoc u v (generateCoverLetter e page v pdf))) \<and>
   (v \<in> set items \<and> fst (vacancyCallback e u pos q page st v) = Accumulated d \<longrightarrow>
      d \<in> set (vacancyDocs (processPage e u pos q page st items))) \<and>
   (d \<in> set (vacancyDocs st) \<longrightarrow> d \<in> set (vacancyDocs (pageLoop e u pos q page st))) \<and>
   (applicationsPerPosition u = Some q \<and>
    d \<in> set (vacancyDocs (pageLoop e u pos q 1 initial_state)) \<longrightarrow>
      fst (processVacancies e u pos) = Some (vacancyDocs (pageLoop e u pos q 1 initial_state))) \<and>
   (page \<le> 6 \<and> extractPosition e page (position pos) = Returns t \<and>
    getVacancy e page t (only_with_salary u) = Returns items \<and> v \<in> set items \<and>
    fst (vacancyCallback e u pos q page (logged st [ExtractCall page, FetchCall page t]) v)
      = Accumulated d \<longrightarrow>
      d \<in> set (vacancyDocs (pageLoop e u pos q page st))) \<and>
   (applicationsPerPosition u = Some q \<and> stateAt e u pos q page = Some st \<and> page \<le> 6 \<and>
    extractPosition e page (position pos) = Returns t \<and>
    getVacancy e page t (only_with_salary u) = Returns items \<and> v \<in> set items \<and>
    hasHHAccount u \<and> \<not> q \<le> processedVacancies st \<and>
    \<not> alreadyInVacancyDocs (vacancyDocs st) v \<and>
    findOne e page (id_u u) (name_v v) = Returns False \<and>
    isSuitableVacancy e page (position pos) v \<and>
    getOneResume e page (getSuitableResumeId e page (id_v v) (hhAccessToken u)) (hhAccessToken u)
      = Returns link \<and>
    loadPDF e page link (hhAccessToken u) = Returns pdf \<longrightarrow>
      (\<exists>docs. fst (processVacancies e u pos) = Some docs \<and>
         vacancyDoc u v (generateCoverLetter e page v pdf) \<in> set docs))"
proof -
  have soft: "sendNegotiation e page vacancyId resumeId message token \<noteq> Throws \<and>
   (negotiationsPost e page vacancyId resumeId (if truthy message then message else None) token = Throws \<longrightarrow>
      sendNegotiation e page vacancyId resumeId message token = Returns SoftFailure)"
    by (simp add: sendNegotiation_def split: outcome.splits)
  have old: "(hasHHAccount u \<and> \<not> q \<le> processedVacancies st \<and>
    \<not> alreadyInVacancyDocs (vacancyDocs st) v \<and>
    findOne e page (id_u u) (name_v v) = Returns False \<and>
    isSuitableVacancy e page (position pos) v \<and>
    getOneResume e page (getSuitableResumeId e page (id_v v) (hhAccessToken u)) (hhAccessToken u)
      = Returns link \<and>
    loadPDF e page link (hhAccessToken u) = Returns pdf \<longrightarrow>
      fst (vacancyCallback e u pos q page st v) =
        Accumulated (vacancyDoc u v (generateCoverLetter e page v pdf))) \<and>
   (v \<in> set items \<and> fst (vacancyCallback e u pos q page st v) = Accumulated d \<longrightarrow>
      d \<in> set (vacancyDocs (processPage e u pos q page st items))) \<and>
   (d \<in> set (vacancyDocs st) \<longrightarrow> d \<in> set (vacancyDocs (pageLoop e u pos q page st))) \<and>
   (applicationsPerPosition u = Some q \<and>
    d \<in> set (vacancyDocs (pageLoop e u pos q 1 initial_state)) \<longrightarrow>
      fst (processVacancies e u pos) = Some (vacancyDocs (pageLoop e u pos q 1 initial_state)))"
    using linked_account_callback [of u q st v e page pos link pdf]
      processPage_pushed [of v items e u pos q page st d]
      pageLoop_keeps_docs [of d st e u pos q page]
      processVacancies_inserted [of u q d e pos]
    by simp
  have link: "d \<in> set (vacancyDocs (pageLoop e u pos q page st))"
    if "page \<le> 6" "extractPosition e page (position pos) = Returns t"
      "getVacancy e page t (only_with_salary u) = Returns items" "v \<in> set items"
      "fst (vacancyCallback e u pos q page (logged st [ExtractCall page, FetchCall page t]) v)
         = Accumulated d"
    using that by (rule pageLoop_accumulated)
  have run: "\<exists>docs. fst (processVacancies e u pos) = Some docs \<and>
         vacancyDoc u v (generateCoverLetter e page v pdf) \<in> set docs"
    if quota: "applicationsPerPosition u = Some q" and reached: "stateAt e u pos q page = Some st"
      and page: "page \<le> 6" "extractPosition e page (position pos) = Returns t"
        "getVacancy e page t (only_with_salary u) = Returns items" "v \<in> set items"
      and path: "hasHHAccount u" "\<not> q \<le> processedVacancies st"
        "\<not> alreadyInVacancyDocs (vacancyDocs st) v"
        "findOne e page (id_u u) (name_v v) = Returns False"
        "isSuitableVacancy e page (position pos) v"
        "getOneResume e page (getSuitableResumeId e page (id_v v) (hhAccessToken u)) (hhAccessToken u)
           = Returns link"
        "loadPDF e page link (hhAccessToken u) = Returns pdf"
  proof -
    let ?st = "logged st [ExtractCall page, FetchCall page t]"
    let ?d = "vacancyDoc u v (generateCoverLetter e page v pdf)"
    have "fst (vacancyCallback e u pos q page ?st v) = Accumulated ?d"
      using linked_account_callback [of u q ?st v e page pos link pdf] path by simp
    then have "?d \<in> set (vacancyDocs (pageLoop e u pos q page st))"
      using page by (intro pageLoop_accumulated)
    then have final: "?d \<in> set (vacancyDocs (pageLoop e u pos q 1 initial_state))"
      using stateAt_pageLoop [OF reached] by simp
    then have "fst (processVacancies e u pos) = Some (vacancyDocs (pageLoop e u pos q 1 initial_state))"
      using quota by (intro processVacancies_inserted)
    then show ?thesis using final by blast
  qed
  show ?thesis
    using soft old link run by blast
qed

theorem submission_failure_is_soft_witness:
  "negotiationsPost (submission_fails (one_on_page 1)) 1 ''1'' (Some ''r1'')
     (if truthy (Some ''letter'') then Some ''letter'' else None) ''tok'' = Throws \<and>
   sendNegotiation (submission_fails (one_on_page 1)) 1 ''1'' (Some ''r1'') (Some ''letter'') ''tok''
     = Returns SoftFailure \<and>
   hasHHAccount (sample_user 1 True) \<and>
   \<not> 7 \<le> processedVacancies initial_state \<and>
   \<not> alreadyInVacancyDocs (vacancyDocs initial_state) (sample_posting ''1'' ''a'' ''x'') \<and>
   findOne (submission_fails (one_on_page 1)) 1 (id_u (sample_user 1 True))
     (name_v (sample_posting ''1'' ''a'' ''x'')) = Returns False \<and>
   isSuitableVacancy (submission_fails (one_on_page 1)) 1 (position sample_position)
     (sample_posting ''1'' ''a'' ''x'') \<and>
   getOneResume (submission_fails (one_on_page 1)) 1
     (getSuitableResumeId (submission_fails (one_on_page 1)) 1 (id_v (sample_posting ''1'' ''a'' ''x''))
        (hhAccessToken (sample_user 1 True)))
     (hhAccessToken (sample_user 1 True)) = Returns ''pdf'' \<and>
   loadPDF (submission_fails (one_on_page 1)) 1 ''pdf'' (hhAccessToken (sample_user 1 True))
     = Returns ''resume'' \<and>
   fst (vacancyCallback (submission_fails (one_on_page 1)) (sample_user 1 True) sample_position 7 1
     initial_state (sample_posting ''1'' ''a'' ''x'')) =
     Accumulated (vacancyDoc (sample_user 1 True) (sample_posting ''1'' ''a'' ''x'') (Some ''letter'')) \<and>
   sample_posting ''1'' ''a'' ''x'' \<in> set (one_on_page 1 1) \<and>
   vacancyDoc (sample_user 1 True) (sample_posting ''1'' ''a'' ''x'') (Some ''letter'')
     \<in> set (vacancyDocs (processPage (submission_fails (one_on_page 1)) (sample_user 1 True)
          sample_position 7 1 initial_state (one_on_page 1 1))) \<and>
   applicationsPerPosition (sample_user 1 True) = Some 7 \<and>
   fst (processVacancies (submission_fails (one_on_page 1)) (sample_user 1 True) sample_position) =
     Some [vacancyDoc (sample_user 1 True) (sample_posting ''1'' ''a'' ''x'') (Some ''letter'')] \<and>
   stateAt (submission_fails (one_on_page 2)) (sample_user 1 True) sample_position 7 2 =
     Some (logged initial_state [ExtractCall 1, FetchCall 1 ''dev'']) \<and>
   (2::nat) \<le> 6 \<and>
   extractPosition (submission_fails (one_on_page 2)) 2 (position sample_position) = Returns ''dev'' \<and>
   getVacancy (submission_fails (one_on_page 2)) 2 ''dev'' (only_with_salary (sample_user 1 True))
     = Returns (one_on_page 2 2) \<and>
   sample_posting ''1'' ''a'' ''x'' \<in> set (one_on_page 2 2) \<and>
   negotiationsPost (submission_fails (one_on_page 2)) 2 ''1'' (Some ''r1'') (Some ''letter'') ''tok''
     = Throws \<and>
   (\<exists>docs. fst (processVacancies (submission_fails (one_on_page 2)) (sample_user 1 True)
        sample_position) = Some docs \<and>
      vacancyDoc (sample_user 1 True) (sample_posting ''1'' ''a'' ''x'') (Some ''letter'') \<in> set docs) \<and>
   fst (processVacancies (submission_fails (one_on_page 2)) (sample_user 1 True) sample_position) =
     Some [vacancyDoc (sample_user 1 True) (sample_posting ''1'' ''a'' ''x'') (Some ''letter'')]"
proof -
  note a = submission_failure_is_soft [where e = "submission_fails (one_on_page 1)" and page = 1
      and vacancyId = "''1''" and resumeId = "Some ''r1''" and message = "Some ''letter''"
      and token = "''tok''" and u = "sample_user 1 True" and q = 7 and st = initial_state
      and v = "sample_posting ''1'' ''a'' ''x''" and pos = sample_position and link = "''pdf''"
      and pdf = "''resume''" and items = "one_on_page 1 1"
      and d = "vacancyDoc (sample_user 1 True) (sample_posting ''1'' ''a'' ''x'') (Some ''letter'')"]
  have hyps:
    "negotiationsPost (submission_fails (one_on_page 1)) 1 ''1'' (Some ''r1'')
       (if truthy (Some ''letter'') then Some ''letter'' else None) ''tok'' = Throws"
    "hasHHAccount (sample_user 1 True)"
    "\<not> 7 \<le> processedVacancies initial_state"
    "\<not> alreadyInVacancyDocs (vacancyDocs initial_state) (sample_posting ''1'' ''a'' ''x'')"
    "findOne (submission_fails (one_on_page 1)) 1 (id_u (sample_user 1 True))
       (name_v (sample_posting ''1'' ''a'' ''x'')) = Returns False"
    "isSuitableVacancy (submission_fails (one_on_page 1)) 1 (position sample_position)
       (sample_posting ''1'' ''a'' ''x'')"
    "getOneResume (submission_fails (one_on_page 1)) 1
       (getSuitableResumeId (submission_fails (one_on_page 1)) 1 (id_v (sample_posting ''1'' ''a'' ''x''))
          (hhAccessToken (sample_user 1 True)))
       (hhAccessToken (sample_user 1 True)) = Returns ''pdf''"
    "loadPDF (submission_fails (one_on_page 1)) 1 ''pdf'' (hhAccessToken (sample_user 1 True))
       = Returns ''resume''"
    "sample_posting ''1'' ''a'' ''x'' \<in> set (one_on_page 1 1)"
    "applicationsPerPosition (sample_user 1 True) = Some 7"
    "generateCoverLetter (submission_fails (one_on_page 1)) 1 (sample_posting ''1'' ''a'' ''x'') ''resume''
       = Some ''letter''"
    by (simp_all add: sample_defs pipeline_defs)
  have run: "fst (processVacancies (submission_fails (one_on_page 1)) (sample_user 1 True) sample_position) =
     Some [vacancyDoc (sample_user 1 True) (sample_posting ''1'' ''a'' ''x'') (Some ''letter'')]"
    by (simp add: sample_defs pipeline_defs pageLoop.simps)
  let ?e = "submission_fails (one_on_page 2)"
  let ?u = "sample_user 1 True"
  let ?v = "sample_posting ''1'' ''a'' ''x''"
  let ?st = "logged initial_state [ExtractCall 1, FetchCall 1 ''dev'']"
  note b = submission_failure_is_soft [where e = ?e and page = 2
      and vacancyId = "''1''" and resumeId = "Some ''r1''" and message = "Some ''letter''"
      and token = "''tok''" and u = ?u and q = 7 and st = ?st
      and v = ?v and pos = sample_position and link = "''pdf''"
      and pdf = "''resume''" and items = "one_on_page 2 2" and t = "''dev''"
      and d = "vacancyDoc ?u ?v (Some ''letter'')"]
  have reached: "stateAt ?e ?u sample_position 7 2 = Some ?st"
    by (simp add: stateAt.simps sample_defs pipeline_defs)
  have hyps2:
    "applicationsPerPosition ?u = Some 7"
    "extractPosition ?e 2 (position sample_position) = Returns ''dev''"
    "getVacancy ?e 2 ''dev'' (only_with_salary ?u) = Returns (one_on_page 2 2)"
    "?v \<in> set (one_on_page 2 2)"
    "negotiationsPost ?e 2 ''1'' (Some ''r1'') (Some ''letter'') ''tok'' = Throws"
    "hasHHAccount ?u"
    "\<not> 7 \<le> processedVacancies ?st"
    "\<not> alreadyInVacancyDocs (vacancyDocs ?st) ?v"
    "findOne ?e 2 (id_u ?u) (name_v ?v) = Returns False"
    "isSuitableVacancy ?e 2 (position sample_position) ?v"
    "getOneResume ?e 2 (getSuitableResumeId ?e 2 (id_v ?v) (hhAccessToken ?u)) (hhAccessToken ?u)
       = Returns ''pdf''"
    "loadPDF ?e 2 ''pdf'' (hhAccessToken ?u) = Returns ''resume''"
    "generateCoverLetter ?e 2 ?v ''resume'' = Some ''letter''"
    by (simp_all add: sample_defs pipeline_defs)
  have committed: "\<exists>docs. fst (processVacancies ?e ?u sample_position) = Some docs \<and>
      vacancyDoc ?u ?v (Some ''letter'') \<in> set docs"
    using b reached hyps2 by simp
  have run2: "fst (processVacancies ?e ?u sample_position) = Some [vacancyDoc ?u ?v (Some ''letter'')]"
    by (simp add: sample_defs pipeline_defs pageLoop.simps)
  have first: "negotiationsPost (submission_fails (one_on_page 1)) 1 ''1'' (Some ''r1'')
     (if truthy (Some ''letter'') then Some ''letter'' else None) ''tok'' = Throws \<and>
   sendNegotiation (submission_fails (one_on_page 1)) 1 ''1'' (Some ''r1'') (Some ''letter'') ''tok''
     = Returns SoftFailure \<and>
   fst (vacancyCallback (submission_fails (one_on_page 1)) (sample_user 1 True) sample_position 7 1
     initial_state (sample_posting ''1'' ''a'' ''x'')) =
     Accumulated (vacancyDoc (sample_user 1 True) (sample_posting ''1'' ''a'' ''x'') (Some ''letter'')) \<and>
   vacancyDoc (sample_user 1 True) (sample_posting ''1'' ''a'' ''x'') (Some ''letter'')
     \<in> set (vacancyDocs (processPage (submission_fails (one_on_page 1)) (sample_user 1 True)
          sample_position 7 1 initial_state (one_on_page 1 1)))"
    using a hyps run by simp
  show ?thesis
    using first hyps run reached hyps2(2-5) committed run2 by simp
qed

text \<open>
  C8 says that a failure of the extraction step aborts the run of the criterion and that
  the search term is computed once per run. In this run the extraction fails on page 1;
  pages 2 to 6 are fetched all the same, a record comes from page 2, and the extraction
  is made six times.
\<close>

theorem extraction_failure_counterexample:
  "extractPosition (extraction_fails_once (one_on_page 2)) 1 (position sample_position) = Throws \<and>
   fetchedPages (snd (processVacancies (extraction_fails_once (one_on_page 2)) (sample_user 1 False)
     sample_position)) = [2, 3, 4, 5, 6] \<and>
   extractedPages (snd (processVacancies (extraction_fails_once (one_on_page 2)) (sample_user 1 False)
     sample_position)) = [1, 2, 3, 4, 5, 6] \<and>
   map_option (map vacancy_id) (fst (processVacancies (extraction_fails_once (one_on_page 2))
     (sample_user 1 False) sample_position)) = Some [''1'']"
  by (simp add: sample_defs pipeline_defs pageLoop.simps)

text \<open>
  C8, as the code has it. A failure of the extraction step is caught inside the loop
  body: the page of that iteration is not fetched, and the loop goes on with the next
  page, where the extraction is made again. Every fetch uses the term extracted in its
  own iteration: the term is computed once per page iteration, for the pages 1 to at
  most 6 in turn, not once per run.
\<close>

theorem extraction_failure_skips_page:
  "(page \<le> 6 \<and> extractPosition e page (position pos) = Throws \<longrightarrow>
      pageLoop e u pos q page st = pageLoop e u pos q (Suc page) (logged st [ExtractCall page])) \<and>
   (extractPosition e p (position pos) = Throws \<longrightarrow>
      p \<notin> set (fetchedPages (snd (processVacancies e u pos)))) \<and>
   (FetchCall p t \<in> set (snd (processVacancies e u pos)) \<longrightarrow>
      extractPosition e p (position pos) = Returns t \<and>
      p \<in> set (extractedPages (snd (processVacancies e u pos)))) \<and>
   extractedPages (snd (processVacancies e u pos)) =
     [1 ..< Suc (length (extractedPages (snd (processVacancies e u pos))))] \<and>
   length (extractedPages (snd (processVacancies e u pos))) \<le> 6"
proof -
  have step: "page \<le> 6 \<and> extractPosition e page (position pos) = Throws \<longrightarrow>
      pageLoop e u pos q page st = pageLoop e u pos q (Suc page) (logged st [ExtractCall page])"
    using pageLoop_extract_throws [of page e pos u q st] by blast
  have fetch: "extractPosition e p (position pos) = Returns t \<and>
      p \<in> set (extractedPages (snd (processVacancies e u pos)))"
    if "FetchCall p t \<in> set (snd (processVacancies e u pos))" for p t
  proof (cases "applicationsPerPosition u")
    case None
    then show ?thesis using that by (simp add: processVacancies_no_positions)
  next
    case (Some quota)
    then show ?thesis
      using that pageLoop_fetch_term [of p t e u pos quota] by (simp add: processVacancies_calls)
  qed
  have nofetch: "p \<notin> set (fetchedPages (snd (processVacancies e u pos)))"
    if "extractPosition e p (position pos) = Throws"
    using that fetch [of p] by (auto simp: fetchedPages_mem)
  have extracted: "extractedPages (snd (processVacancies e u pos)) =
     [1 ..< Suc (length (extractedPages (snd (processVacancies e u pos))))] \<and>
      length (extractedPages (snd (processVacancies e u pos))) \<le> 6"
  proof (cases "applicationsPerPosition u")
    case None
    then show ?thesis by (simp add: processVacancies_no_positions)
  next
    case (Some quota)
    then show ?thesis
      using pageLoop_extracted [of e u pos quota] by (simp add: processVacancies_calls)
  qed
  show ?thesis
    using step fetch nofetch extracted by blast
qed

theorem extraction_failure_skips_page_witness:
  "(1::nat) \<le> 6 \<and>
   extractPosition (extraction_fails_once (one_on_page 2)) 1 (position sample_position) = Throws \<and>
   pageLoop (extraction_fails_once (one_on_page 2)) (sample_user 1 False) sample_position 7 1 initial_state =
     pageLoop (extraction_fails_once (one_on_page 2)) (sample_user 1 False) sample_position 7 (Suc 1)
       (logged initial_state [ExtractCall 1]) \<and>
   1 \<notin> set (fetchedPages (snd (processVacancies (extraction_fails_once (one_on_page 2))
     (sample_user 1 False) sample_position))) \<and>
   FetchCall 2 ''dev'' \<in> set (snd (processVacancies (extraction_fails_once (one_on_page 2))
     (sample_user 1 False) sample_position)) \<and>
   extractPosition (extraction_fails_once (one_on_page 2)) 2 (position sample_position) = Returns ''dev'' \<and>
   2 \<in> set (extractedPages (snd (processVacancies (extraction_fails_once (one_on_page 2))
     (sample_user 1 False) sample_position))) \<and>
   length (extractedPages (snd (processVacancies (extraction_fails_once (one_on_page 2))
     (sample_user 1 False) sample_position))) = 6"
proof -
  note a = extraction_failure_skips_page [where e = "extraction_fails_once (one_on_page 2)"
      and u = "sample_user 1 False" and pos = sample_position and page = 1 and q = 7
      and st = initial_state and p = 1 and t = "''dev''"]
  note b = extraction_failure_skips_page [where e = "extraction_fails_once (one_on_page 2)"
      and u = "sample_user 1 False" and pos = sample_position and page = 1 and q = 7
      and st = initial_state and p = 2 and t = "''dev''"]
  have throws:
    "extractPosition (extraction_fails_once (one_on_page 2)) 1 (position sample_position) = Throws"
    by (simp add: sample_defs extractPosition_def)
  have run: "snd (processVacancies (extraction_fails_once (one_on_page 2)) (sample_user 1 False)
      sample_position) =
    [ExtractCall 1, ExtractCall 2, FetchCall 2 ''dev'', ExtractCall 3, FetchCall 3 ''dev'',
     ExtractCall 4, FetchCall 4 ''dev'', ExtractCall 5, FetchCall 5 ''dev'',
     ExtractCall 6, FetchCall 6 ''dev'']"
    by (simp add: sample_defs pipeline_defs pageLoop.simps)
  have fetched: "FetchCall 2 ''dev'' \<in> set (snd (processVacancies (extraction_fails_once (one_on_page 2))
     (sample_user 1 False) sample_position))"
    by (simp only: run, simp)
  show ?thesis
    using a b throws fetched by (simp only: run, simp)
qed

text \<open>
  C9. The page loop runs for the pages 1 to 6 at most and fetches them one after the
  other, in increasing order; after a page without postings it goes on with the next
  page; after a page that brings the count of accumulated records to the quota it stops,
  and otherwise it goes on with the next page.
\<close>

theorem page_loop_bounds:
  "sorted_wrt (<) (fetchedPages (snd (processVacancies e u pos))) \<and>
   set (fetchedPages (snd (processVacancies e u pos))) \<subseteq> {1..6} \<and>
   (page \<le> 6 \<and> extractPosition e page (position pos) = Returns t \<and>
    getVacancy e page t (only_with_salary u) = Returns [] \<longrightarrow>
      pageLoop e u pos q page st =
        pageLoop e u pos q (Suc page) (logged st [ExtractCall page, FetchCall page t])) \<and>
   (page \<le> 6 \<and> extractPosition e page (position pos) = Returns t \<and>
    getVacancy e page t (only_with_salary u) = Returns items \<and> items \<noteq> [] \<and>
    q \<le> processedVacancies
          (processPage e u pos q page (logged st [ExtractCall page, FetchCall page t]) items) \<longrightarrow>
      pageLoop e u pos q page st =
        processPage e u pos q page (logged st [ExtractCall page, FetchCall page t]) items) \<and>
   (page \<le> 6 \<and> extractPosition e page (position pos) = Returns t \<and>
    getVacancy e page t (only_with_salary u) = Returns items \<and> items \<noteq> [] \<and>
    \<not> q \<le> processedVacancies
          (processPage e u pos q page (logged st [ExtractCall page, FetchCall page t]) items) \<longrightarrow>
      pageLoop e u pos q page st =
        pageLoop e u pos q (Suc page)
          (processPage e u pos q page (logged st [ExtractCall page, FetchCall page t]) items)) \<and>
   (\<not> page \<le> 6 \<longrightarrow> pageLoop e u pos q page st = st)"
proof -
  have run: "sorted_wrt (<) (fetchedPages (snd (processVacancies e u pos))) \<and>
             set (fetchedPages (snd (processVacancies e u pos))) \<subseteq> {1..6}"
  proof (cases "applicationsPerPosition u")
    case None
    then show ?thesis by (simp add: processVacancies_def)
  next
    case (Some quota)
    then show ?thesis
      using pageLoop_fetched [of e u pos quota] by (simp add: processVacancies_def Let_def)
  qed
  show ?thesis
    using run pageLoop_empty_page [of page e pos t u q st]
      pageLoop_break [of page e pos t u items q st]
      pageLoop_next [of page e pos t u items q st]
      pageLoop_stop [of page e u pos q st]
    by blast
qed

theorem page_loop_bounds_witness:
  "fetchedPages (snd (processVacancies (sample_env no_pages) (sample_user 1 False) sample_position))
     = [1, 2, 3, 4, 5, 6] \<and>
   (1::nat) \<le> 6 \<and>
   extractPosition (sample_env no_pages) 1 (position sample_position) = Returns ''dev'' \<and>
   getVacancy (sample_env no_pages) 1 ''dev'' (only_with_salary (sample_user 1 False)) = Returns [] \<and>
   pageLoop (sample_env no_pages) (sample_user 1 False) sample_position 7 1 initial_state =
     pageLoop (sample_env no_pages) (sample_user 1 False) sample_position 7 (Suc 1)
       (logged initial_state [ExtractCall 1, FetchCall 1 ''dev'']) \<and>
   getVacancy (sample_env three_on_page_one) 1 ''dev'' (only_with_salary (sample_user 8 False))
     = Returns (three_on_page_one 1) \<and>
   three_on_page_one 1 \<noteq> [] \<and>
   2 \<le> processedVacancies
         (processPage (sample_env three_on_page_one) (sample_user 8 False) sample_position 2 1
            (logged initial_state [ExtractCall 1, FetchCall 1 ''dev'']) (three_on_page_one 1)) \<and>
   pageLoop (sample_env three_on_page_one) (sample_user 8 False) sample_position 2 1 initial_state =
     processPage (sample_env three_on_page_one) (sample_user 8 False) sample_position 2 1
       (logged initial_state [ExtractCall 1, FetchCall 1 ''dev'']) (three_on_page_one 1) \<and>
   fetchedPages (snd (processVacancies (sample_env three_on_page_one) (sample_user 8 False) sample_position))
     = [1] \<and>
   \<not> 7 \<le> processedVacancies
         (processPage (sample_env three_on_page_one) (sample_user 1 False) sample_position 7 1
            (logged initial_state [ExtractCall 1, FetchCall 1 ''dev'']) (three_on_page_one 1)) \<and>
   pageLoop (sample_env three_on_page_one) (sample_user 1 False) sample_position 7 1 initial_state =
     pageLoop (sample_env three_on_page_one) (sample_user 1 False) sample_position 7 (Suc 1)
       (processPage (sample_env three_on_page_one) (sample_user 1 False) sample_position 7 1
          (logged initial_state [ExtractCall 1, FetchCall 1 ''dev'']) (three_on_page_one 1)) \<and>
   \<not> (7::nat) \<le> 6 \<and>
   pageLoop (sample_env no_pages) (sample_user 1 False) sample_position 7 7 initial_state = initial_state"
proof -
  note a = page_loop_bounds [where e = "sample_env no_pages" and u = "sample_user 1 False"
      and pos = sample_position and page = 1 and t = "''dev''" and q = 7 and st = initial_state
      and items = "[]"]
  note b = page_loop_bounds [where e = "sample_env three_on_page_one" and u = "sample_user 8 False"
      and pos = sample_position and page = 1 and t = "''dev''" and q = 2 and st = initial_state
      and items = "three_on_page_one 1"]
  note c = page_loop_bounds [where e = "sample_env three_on_page_one" and u = "sample_user 1 False"
      and pos = sample_position and page = 1 and t = "''dev''" and q = 7 and st = initial_state
      and items = "three_on_page_one 1"]
  note d = page_loop_bounds [where e = "sample_env no_pages" and u = "sample_user 1 False"
      and pos = sample_position and page = 7 and t = "''dev''" and q = 7 and st = initial_state
      and items = "[]"]
  have hyps:
    "extractPosition (sample_env no_pages) 1 (position sample_position) = Returns ''dev''"
    "getVacancy (sample_env no_pages) 1 ''dev'' (only_with_salary (sample_user 1 False)) = Returns []"
    "getVacancy (sample_env three_on_page_one) 1 ''dev'' (only_with_salary (sample_user 8 False))
       = Returns (three_on_page_one 1)"
    "three_on_page_one 1 \<noteq> []"
    "extractPosition (sample_env three_on_page_one) 1 (position sample_position) = Returns ''dev''"
    "getVacancy (sample_env three_on_page_one) 1 ''dev'' (only_with_salary (sample_user 1 False))
       = Returns (three_on_page_one 1)"
    by (simp_all add: sample_defs extractPosition_def)
  have counts:
    "processedVacancies
         (processPage (sample_env three_on_page_one) (sample_user 8 False) sample_position 2 1
            (logged initial_state [ExtractCall 1, FetchCall 1 ''dev'']) (three_on_page_one 1)) = 3"
    "processedVacancies
         (processPage (sample_env three_on_page_one) (sample_user 1 False) sample_position 7 1
            (logged initial_state [ExtractCall 1, FetchCall 1 ''dev'']) (three_on_page_one 1)) = 3"
    by (simp_all add: sample_defs pipeline_defs)
  have runs:
    "fetchedPages (snd (processVacancies (sample_env no_pages) (sample_user 1 False) sample_position))
       = [1, 2, 3, 4, 5, 6]"
    "fetchedPages (snd (processVacancies (sample_env three_on_page_one) (sample_user 8 False) sample_position))
       = [1]"
    by (simp_all add: sample_defs pipeline_defs pageLoop.simps)
  show ?thesis
    using a b c d hyps counts runs by simp
qed

text \<open>
  C10. For a user with a linked account, a posting that passes the quota test, both
  dedup tests and the relevance test, and whose resume is fetched, yields a record also
  when the document generator returns null: the record's letter is null, and
  \<open>sendNegotiation\<close> is called with null as its message.
\<close>

theorem linked_account_null_letter:
  "hasHHAccount u \<Longrightarrow> \<not> q \<le> processedVacancies st \<Longrightarrow>
   \<not> alreadyInVacancyDocs (vacancyDocs st) v \<Longrightarrow>
   findOne e page (id_u u) (name_v v) = Returns False \<Longrightarrow>
   isSuitableVacancy e page (position pos) v \<Longrightarrow>
   getOneResume e page (getSuitableResumeId e page (id_v v) (hhAccessToken u)) (hhAccessToken u)
     = Returns link \<Longrightarrow>
   loadPDF e page link (hhAccessToken u) = Returns pdf \<Longrightarrow>
   generateCoverLetter e page v pdf = None \<Longrightarrow>
   vacancyCallback e u pos q page st v =
     (Accumulated (vacancyDoc u v None),
      [NegotiationCall (id_v v) (getSuitableResumeId e page (id_v v) (hhAccessToken u)) None]) \<and>
   cover_letter (vacancyDoc u v None) = None \<and>
   (v \<in> set items \<longrightarrow>
      vacancyDoc u v None \<in> set (vacancyDocs (processPage e u pos q page st items)) \<and>
      NegotiationCall (id_v v) (getSuitableResumeId e page (id_v v) (hhAccessToken u)) None
        \<in> set (calls (processPage e u pos q page st items)))"
proof -
  assume h: "hasHHAccount u" "\<not> q \<le> processedVacancies st"
    "\<not> alreadyInVacancyDocs (vacancyDocs st) v"
    "findOne e page (id_u u) (name_v v) = Returns False"
    "isSuitableVacancy e page (position pos) v"
    "getOneResume e page (getSuitableResumeId e page (id_v v) (hhAccessToken u)) (hhAccessToken u)
       = Returns link"
    "loadPDF e page link (hhAccessToken u) = Returns pdf"
    and none: "generateCoverLetter e page v pdf = None"
  have cb: "vacancyCallback e u pos q page st v =
     (Accumulated (vacancyDoc u v None),
      [NegotiationCall (id_v v) (getSuitableResumeId e page (id_v v) (hhAccessToken u)) None])"
    using linked_account_callback [OF h] none by simp
  have doc: "cover_letter (vacancyDoc u v None) = None"
    by (simp add: vacancyDoc_def)
  have page: "vacancyDoc u v None \<in> set (vacancyDocs (processPage e u pos q page st items)) \<and>
      NegotiationCall (id_v v) (getSuitableResumeId e page (id_v v) (hhAccessToken u)) None
        \<in> set (calls (processPage e u pos q page st items))"
    if "v \<in> set items"
    using that cb processPage_pushed [of v items e u pos q page st "vacancyDoc u v None"]
      processPage_called [of v items _ e u pos q page st]
    by simp
  show ?thesis using cb doc page by blast
qed

theorem linked_account_null_letter_witness:
  "hasHHAccount (sample_user 1 True) \<and>
   \<not> 7 \<le> processedVacancies initial_state \<and>
   \<not> alreadyInVacancyDocs (vacancyDocs initial_state) (sample_posting ''1'' ''a'' ''x'') \<and>
   findOne (generator_fails (one_on_page 1)) 1 (id_u (sample_user 1 True))
     (name_v (sample_posting ''1'' ''a'' ''x'')) = Returns False \<and>
   isSuitableVacancy (generator_fails (one_on_page 1)) 1 (position sample_position)
     (sample_posting ''1'' ''a'' ''x'') \<and>
   getOneResume (generator_fails (one_on_page 1)) 1
     (getSuitableResumeId (generator_fails (one_on_page 1)) 1 (id_v (sample_posting ''1'' ''a'' ''x''))
        (hhAccessToken (sample_user 1 True)))
     (hhAccessToken (sample_user 1 True)) = Returns ''pdf'' \<and>
   loadPDF (generator_fails (one_on_page 1)) 1 ''pdf'' (hhAccessToken (sample_user 1 True))
     = Returns ''resume'' \<and>
   generateCoverLetter (generator_fails (one_on_page 1)) 1 (sample_posting ''1'' ''a'' ''x'') ''resume''
     = None \<and>
   vacancyCallback (generator_fails (one_on_page 1)) (sample_user 1 True) sample_position 7 1
     initial_state (sample_posting ''1'' ''a'' ''x'') =
     (Accumulated (vacancyDoc (sample_user 1 True) (sample_posting ''1'' ''a'' ''x'') None),
      [NegotiationCall ''1'' (Some ''r1'') None]) \<and>
   sample_posting ''1'' ''a'' ''x'' \<in> set (one_on_page 1 1) \<and>
   fst (processVacancies (generator_fails (one_on_page 1)) (sample_user 1 True) sample_position) =
     Some [vacancyDoc (sample_user 1 True) (sample_posting ''1'' ''a'' ''x'') None] \<and>
   NegotiationCall ''1'' (Some ''r1'') None
     \<in> set (snd (processVacancies (generator_fails (one_on_page 1)) (sample_user 1 True) sample_position))"
proof -
  have hyps:
    "hasHHAccount (sample_user 1 True)"
    "\<not> 7 \<le> processedVacancies initial_state"
    "\<not> alreadyInVacancyDocs (vacancyDocs initial_state) (sample_posting ''1'' ''a'' ''x'')"
    "findOne (generator_fails (one_on_page 1)) 1 (id_u (sample_user 1 True))
       (name_v (sample_posting ''1'' ''a'' ''x'')) = Returns False"
    "isSuitableVacancy (generator_fails (one_on_page 1)) 1 (position sample_position)
       (sample_posting ''1'' ''a'' ''x'')"
    "getOneResume (generator_fails (one_on_page 1)) 1
       (getSuitableResumeId (generator_fails (one_on_page 1)) 1 (id_v (sample_posting ''1'' ''a'' ''x''))
          (hhAccessToken (sample_user 1 True)))
       (hhAccessToken (sample_user 1 True)) = Returns ''pdf''"
    "loadPDF (generator_fails (one_on_page 1)) 1 ''pdf'' (hhAccessToken (sample_user 1 True))
       = Returns ''resume''"
    "generateCoverLetter (generator_fails (one_on_page 1)) 1 (sample_posting ''1'' ''a'' ''x'') ''resume''
       = None"
    by (simp_all add: sample_defs pipeline_defs)
  note a = linked_account_null_letter [OF hyps, where items = "one_on_page 1 1"]
  have more:
    "getSuitableResumeId (generator_fails (one_on_page 1)) 1 (id_v (sample_posting ''1'' ''a'' ''x''))
        (hhAccessToken (sample_user 1 True)) = Some ''r1''"
    "id_v (sample_posting ''1'' ''a'' ''x'') = ''1''"
    "sample_posting ''1'' ''a'' ''x'' \<in> set (one_on_page 1 1)"
    by (simp_all add: sample_defs pipeline_defs)
  have run:
    "processVacancies (generator_fails (one_on_page 1)) (sample_user 1 True) sample_position =
      (Some [vacancyDoc (sample_user 1 True) (sample_posting ''1'' ''a'' ''x'') None],
       [ExtractCall 1, FetchCall 1 ''dev'', NegotiationCall ''1'' (Some ''r1'') None,
        ExtractCall 2, FetchCall 2 ''dev'', ExtractCall 3, FetchCall 3 ''dev'',
        ExtractCall 4, FetchCall 4 ''dev'', ExtractCall 5, FetchCall 5 ''dev'',
        ExtractCall 6, FetchCall 6 ''dev''])"
    by (simp add: sample_defs pipeline_defs pageLoop.simps)
  show ?thesis
    using a hyps more by (simp only: run, simp)
qed

end
